theory Spec2Isabelle
  imports Complex_Main "HOL-Library.Char_ord" "HOL-Library.List_Lexorder"
begin

section \<open>The thumbnail pipeline of \<^verbatim>\<open>lambda_function.py\<close>\<close>

text \<open>
  The repository is one function, \<^verbatim>\<open>lambda_handler(event, context)\<close>. For each
  record of the event it draws an identifier, downloads the source object, decodes it,
  shrinks it into a 300 by 300 box, encodes it as JPEG, uploads the result under
  \<^verbatim>\<open>resized/<basename>\<close> and stores one metadata item. Every step may raise;
  nothing is caught, so the first exception leaves the loop and the handler.

  The handler is embedded as a function from the event and the state of the outer world
  to a result and the new state. Exceptions are values of the type \<open>error\<close>; the
  result is \<open>Inl\<close> of the exception raised or \<open>Inr\<close> of the value returned. What
  the handler calls in the standard library, in Pillow and in boto3 is not code of the
  repository; each such operation is a definition of its own below, marked as modelled.
\<close>

subsection \<open>Data\<close>

text \<open>The exceptions, by the names Python, Pillow and botocore give them.\<close>

datatype error =
    KeyError string
  | ClientError string
  | UnidentifiedImageError
  | OSError string
  | ZeroDivisionError

text \<open>
  A decoded picture as far as the handler depends on it: the file format it was read
  from, the raster mode and the size. The pixels are not modelled.
\<close>

record pil_image =
  format :: string
  mode :: string
  width :: int
  height :: int

text \<open>
  The content of a stored object: either the encoding of a picture, or bytes that no
  decoder accepts.
\<close>

datatype blob = ImageFile pil_image | OtherData string

text \<open>
  An item of the metadata table: the \<^verbatim>\<open>dict\<close> of line 35, attribute names and
  values in the order written.
\<close>

type_synonym item = "(string \<times> string) list"

text \<open>The requests sent to the object store and to the metadata table, in order.\<close>

datatype call =
    GetObject string string
  | PutObject string string blob string
  | PutItem item

text \<open>The value of \<^verbatim>\<open>datetime.utcnow()\<close>: a naive date and time.\<close>

record datetime =
  year :: nat
  month :: nat
  day :: nat
  hour :: nat
  minute :: nat
  second :: nat
  microsecond :: nat

text \<open>
  What the process is given and cannot change: the environment variables, the values
  that successive calls of \<^verbatim>\<open>uuid.uuid4()\<close> and \<^verbatim>\<open>datetime.utcnow()\<close> return,
  and the failures of the two services (request number \<open>n\<close>, counted from 0 over the
  life of the world, fails with \<open>e\<close> when \<open>faults n = Some e\<close>).
\<close>

record env =
  environ :: "string \<rightharpoonup> string"
  uuid_source :: "nat \<Rightarrow> string"
  clock :: "nat \<Rightarrow> datetime"
  faults :: "nat \<Rightarrow> error option"

text \<open>
  What the handler reads and changes: the objects of the store by bucket and key, the
  items of the metadata table (the table that line 10 binds when the module is loaded),
  the number of identifiers drawn and of clock readings taken so far, and the log of
  requests.
\<close>

record world =
  s3_objects :: "string \<times> string \<rightharpoonup> blob"
  ddb_items :: "string \<rightharpoonup> item"
  uuid_count :: nat
  clock_reads :: nat
  calls :: "call list"

text \<open>
  The event in the shape of a storage notification: a list of records, each giving the
  key that line 17 reads as \<^verbatim>\<open>record['s3']['object']['key']\<close>.
\<close>

datatype s3_event_record = S3Record (object_key: string)

record event =
  Records :: "s3_event_record list"

text \<open>The \<^verbatim>\<open>dict\<close> that line 44 returns.\<close>

record response =
  statusCode :: int
  body :: string

subsection \<open>The standard library\<close>

text \<open>
  Modelled from the spec: \<^verbatim>\<open>os.path.basename\<close> is Python's standard library, not
  code of this repository. The glossary: "Basename: final path segment of a key string".
  As in \<^verbatim>\<open>posixpath\<close>, it is what follows the last slash
  (\<^verbatim>\<open>p[p.rfind('/') + 1:]\<close>).
\<close>

definition basename :: "string \<Rightarrow> string" where
  "basename p = rev (takeWhile (\<lambda>c. c \<noteq> CHR ''/'') (rev p))"

text \<open>
  Modelled from the spec: \<^verbatim>\<open>uuid.uuid4()\<close> is Python's standard library, not code
  of this repository. Section 4.1 step 1: "Generate a fresh unique identifier for this
  processing instance". Each call takes the next value of the source.
\<close>

definition uuid4 :: "env \<Rightarrow> world \<Rightarrow> string \<times> world" where
  "uuid4 e w = (uuid_source e (uuid_count w), w\<lparr>uuid_count := Suc (uuid_count w)\<rparr>)"

text \<open>
  Modelled from the spec: \<^verbatim>\<open>datetime.utcnow()\<close> is Python's standard library, not
  code of this repository. Section 3: "processing timestamp (UTC, ISO-8601)". Each call
  takes the next reading of the clock.
\<close>

definition utcnow :: "env \<Rightarrow> world \<Rightarrow> datetime \<times> world" where
  "utcnow e w = (clock e (clock_reads w), w\<lparr>clock_reads := Suc (clock_reads w)\<rparr>)"

text \<open>
  Modelled from the spec: the number formatting of Python, not code of this repository,
  as far as \<^verbatim>\<open>isoformat\<close> below uses it (section 3: "ISO-8601"): a decimal digit,
  \<^verbatim>\<open>'%d' % n\<close> for a natural number, and \<^verbatim>\<open>'%0kd' % n\<close>, which puts zeros on
  the left up to the width \<open>k\<close>.
\<close>

definition digit_char :: "nat \<Rightarrow> char" where
  "digit_char n = ''0123456789'' ! (n mod 10)"

fun decimal :: "nat \<Rightarrow> string" where
  "decimal n = (if n < 10 then [digit_char n] else decimal (n div 10) @ [digit_char (n mod 10)])"

declare decimal.simps [simp del]

definition zero_padded :: "nat \<Rightarrow> nat \<Rightarrow> string" where
  "zero_padded k n = replicate (k - length (decimal n)) CHR ''0'' @ decimal n"

text \<open>
  Modelled from the spec: \<^verbatim>\<open>datetime.isoformat()\<close> is Python's standard library,
  not code of this repository. Section 3: "processing timestamp (UTC, ISO-8601)". For a
  naive value it is \<^verbatim>\<open>YYYY-MM-DDTHH:MM:SS\<close>, followed by \<^verbatim>\<open>.ffffff\<close> when the
  microsecond is not 0.
\<close>

definition isoformat :: "datetime \<Rightarrow> string" where
  "isoformat d =
     zero_padded 4 (year d) @ ''-'' @ zero_padded 2 (month d) @ ''-'' @ zero_padded 2 (day d)
     @ ''T'' @ zero_padded 2 (hour d) @ '':'' @ zero_padded 2 (minute d) @ '':''
     @ zero_padded 2 (second d)
     @ (if microsecond d = 0 then [] else ''.'' @ zero_padded 6 (microsecond d))"

subsection \<open>The imaging library\<close>

text \<open>
  Modelled from the spec: \<^verbatim>\<open>Image.open\<close> belongs to the Pillow library, not code
  of this repository. Section 4.1 step 2: "fails with DecodeError if the bytes cannot be
  interpreted as an image".
\<close>

definition Image_open :: "blob \<Rightarrow> error + pil_image" where
  "Image_open b = (case b of ImageFile im \<Rightarrow> Inr im | OtherData _ \<Rightarrow> Inl UnidentifiedImageError)"

text \<open>
  Modelled from the spec: \<^verbatim>\<open>Image.thumbnail\<close> belongs to the Pillow library, not
  code of this repository. Section 4.1 step 3: "Compute a resized raster such that
  neither dimension exceeds 300 units, preserving aspect ratio (standard "contain within
  bounding box" thumbnail policy - no upscaling beyond original dimensions)". The spec
  does not fix how the scaled side is rounded; the three definitions take Pillow's
  \<^verbatim>\<open>round_aspect\<close> (of the floor and the ceiling of \<open>number\<close>, the one with the
  smaller key, the floor on a tie, and at least 1) and \<^verbatim>\<open>preserve_aspect_ratio\<close>,
  with exact rational arithmetic where Pillow computes in binary floating point. A
  picture that fits the box is left as it is (\<open>None\<close>); a division by zero raises.
\<close>

definition round_aspect :: "rat \<Rightarrow> (int \<Rightarrow> rat) \<Rightarrow> int" where
  "round_aspect number key =
     max (if key \<lfloor>number\<rfloor> \<le> key \<lceil>number\<rceil> then \<lfloor>number\<rfloor> else \<lceil>number\<rceil>) 1"

definition preserve_aspect_ratio :: "int \<times> int \<Rightarrow> pil_image \<Rightarrow> error + (int \<times> int) option" where
  "preserve_aspect_ratio provided_size im =
     (let (x, y) = provided_size in
      if x \<ge> width im \<and> y \<ge> height im then Inr None
      else if height im = 0 \<or> y = 0 then Inl ZeroDivisionError
      else
        let aspect = rat_of_int (width im) / rat_of_int (height im) in
        if rat_of_int x / rat_of_int y \<ge> aspect
        then Inr (Some (round_aspect (rat_of_int y * aspect)
                          (\<lambda>n. \<bar>aspect - rat_of_int n / rat_of_int y\<bar>), y))
        else if aspect = 0 then Inl ZeroDivisionError
        else Inr (Some (x, round_aspect (rat_of_int x / aspect)
                          (\<lambda>n. if n = 0 then 0 else \<bar>aspect - rat_of_int x / rat_of_int n\<bar>))))"

definition thumbnail :: "int \<times> int \<Rightarrow> pil_image \<Rightarrow> error + pil_image" where
  "thumbnail box im =
     (case preserve_aspect_ratio box im of
        Inl e \<Rightarrow> Inl e
      | Inr None \<Rightarrow> Inr im
      | Inr (Some (x, y)) \<Rightarrow> Inr (im\<lparr>width := x, height := y\<rparr>))"

text \<open>
  Modelled from the spec: \<^verbatim>\<open>Image.save(buffer, 'JPEG')\<close> belongs to the Pillow
  library, not code of this repository. Section 4.1 step 4: "Encode the resized raster as
  JPEG into an in-memory buffer". The spec names no failure of this step; the model takes
  the raster modes that Pillow's JPEG writer accepts (its table \<^verbatim>\<open>RAWMODE\<close>, with the
  mode each is stored as) and raises \<^verbatim>\<open>OSError\<close> for every other mode, as the writer
  does. JPEG has no alpha channel, so \<^verbatim>\<open>RGBA\<close>, \<^verbatim>\<open>LA\<close> and the palette mode
  \<^verbatim>\<open>P\<close> are not in the table.
\<close>

definition RAWMODE :: "(string \<times> string) list" where
  "RAWMODE = [(''1'', ''L''), (''L'', ''L''), (''RGB'', ''RGB''), (''RGBX'', ''RGB''),
              (''CMYK'', ''CMYK''), (''YCbCr'', ''YCbCr'')]"

definition save_jpeg :: "pil_image \<Rightarrow> error + blob" where
  "save_jpeg im =
     (case map_of RAWMODE (mode im) of
        None \<Rightarrow> Inl (OSError (''cannot write mode '' @ mode im @ '' as JPEG''))
      | Some stored \<Rightarrow> Inr (ImageFile (im\<lparr>format := ''JPEG'', mode := stored\<rparr>)))"

subsection \<open>The two services\<close>

text \<open>
  Modelled from the spec: the clients of the object store and of the metadata table
  belong to boto3, not code of this repository. Section 6: "get(bucket_id, key) -> bytes;
  fails if key absent", "put(bucket_id, key, bytes, content_type); overwrites silently if
  key already exists", "put_item(table_id, record)"; section 4.1 step 7: "keyed by the
  generated identifier", so an item replaces the item with the same \<^verbatim>\<open>image_id\<close>. A
  request is logged when it is sent (\<open>send\<close>); it fails when the service does
  (\<open>faults\<close>), and then changes nothing else.
\<close>

definition send :: "call \<Rightarrow> world \<Rightarrow> world" where
  "send c w = w\<lparr>calls := calls w @ [c]\<rparr>"

definition get_object :: "env \<Rightarrow> string \<Rightarrow> string \<Rightarrow> world \<Rightarrow> (error + blob) \<times> world" where
  "get_object e bucket k w =
     (case faults e (length (calls w)) of
        Some err \<Rightarrow> (Inl err, send (GetObject bucket k) w)
      | None \<Rightarrow>
          (case s3_objects w (bucket, k) of
             None \<Rightarrow> (Inl (ClientError ''NoSuchKey''), send (GetObject bucket k) w)
           | Some b \<Rightarrow> (Inr b, send (GetObject bucket k) w)))"

definition put_object ::
  "env \<Rightarrow> string \<Rightarrow> string \<Rightarrow> blob \<Rightarrow> string \<Rightarrow> world \<Rightarrow> (error + unit) \<times> world" where
  "put_object e bucket k b content_type w =
     (case faults e (length (calls w)) of
        Some err \<Rightarrow> (Inl err, send (PutObject bucket k b content_type) w)
      | None \<Rightarrow>
          (Inr (), send (PutObject bucket k b content_type)
                     (w\<lparr>s3_objects := (s3_objects w)((bucket, k) \<mapsto> b)\<rparr>)))"

definition put_item :: "env \<Rightarrow> item \<Rightarrow> world \<Rightarrow> (error + unit) \<times> world" where
  "put_item e it w =
     (case faults e (length (calls w)) of
        Some err \<Rightarrow> (Inl err, send (PutItem it) w)
      | None \<Rightarrow>
          (case map_of it ''image_id'' of
             None \<Rightarrow> (Inl (ClientError ''ValidationException''), send (PutItem it) w)
           | Some i \<Rightarrow> (Inr (), send (PutItem it) (w\<lparr>ddb_items := (ddb_items w)(i \<mapsto> it)\<rparr>))))"

subsection \<open>The handler\<close>

text \<open>
  The body of the loop, lines 17 to 42, for one record: the key (line 17), the identifier
  (18), the download (21), the decoding (22), the resize into the box (300, 300) (25),
  the JPEG encoding (27), the destination key (31), the upload (32) and the metadata
  item (35 to 42), whose \<^verbatim>\<open>upload_time\<close> is read from the clock after the upload.
  Every \<open>Inl\<close> is an exception that leaves the body with the state reached so far.
\<close>

definition process_record ::
  "env \<Rightarrow> string \<Rightarrow> string \<Rightarrow> s3_event_record \<Rightarrow> world \<Rightarrow> (error + unit) \<times> world" where
  "process_record e source_bucket dest_bucket record w =
     (let k = object_key record;
          (image_id, w1) = uuid4 e w
      in case get_object e source_bucket k w1 of
           (Inl err, w2) \<Rightarrow> (Inl err, w2)
         | (Inr response_body, w2) \<Rightarrow>
      (case Image_open response_body of
           Inl err \<Rightarrow> (Inl err, w2)
         | Inr img \<Rightarrow>
      (case thumbnail (300, 300) img of
           Inl err \<Rightarrow> (Inl err, w2)
         | Inr img' \<Rightarrow>
      (case save_jpeg img' of
           Inl err \<Rightarrow> (Inl err, w2)
         | Inr buffer \<Rightarrow>
      (let resized_key = ''resized/'' @ basename k
       in case put_object e dest_bucket resized_key buffer ''image/jpeg'' w2 of
           (Inl err, w3) \<Rightarrow> (Inl err, w3)
         | (Inr _, w3) \<Rightarrow>
      (let (now, w4) = utcnow e w3
       in put_item e
            [(''image_id'', image_id),
             (''original_key'', k),
             (''resized_key'', resized_key),
             (''upload_time'', isoformat now),
             (''source_bucket'', source_bucket),
             (''dest_bucket'', dest_bucket)] w4))))))"

text \<open>The loop of line 16: the records in order, left at the first exception.\<close>

fun process_records ::
  "env \<Rightarrow> string \<Rightarrow> string \<Rightarrow> s3_event_record list \<Rightarrow> world \<Rightarrow> (error + unit) \<times> world" where
  "process_records e source_bucket dest_bucket [] w = (Inr (), w)"
| "process_records e source_bucket dest_bucket (record # records) w =
     (case process_record e source_bucket dest_bucket record w of
        (Inl err, w') \<Rightarrow> (Inl err, w')
      | (Inr _, w') \<Rightarrow> process_records e source_bucket dest_bucket records w')"

text \<open>The value of line 44.\<close>

definition success_payload :: response where
  "success_payload =
     \<lparr>statusCode = 200, body = ''Image resized and metadata stored successfully.''\<rparr>"

text \<open>
  \<^verbatim>\<open>lambda_handler(event, context)\<close>; the context is not used. The two lookups in
  \<^verbatim>\<open>os.environ\<close> (lines 13 and 14) raise \<^verbatim>\<open>KeyError\<close> for a variable that is
  not set.
\<close>

definition lambda_handler :: "env \<Rightarrow> event \<Rightarrow> world \<Rightarrow> (error + response) \<times> world" where
  "lambda_handler e ev w =
     (case environ e ''SOURCE_BUCKET'' of
        None \<Rightarrow> (Inl (KeyError ''SOURCE_BUCKET''), w)
      | Some source_bucket \<Rightarrow>
     (case environ e ''DEST_BUCKET'' of
        None \<Rightarrow> (Inl (KeyError ''DEST_BUCKET''), w)
      | Some dest_bucket \<Rightarrow>
     (case process_records e source_bucket dest_bucket (Records ev) w of
        (Inl err, w') \<Rightarrow> (Inl err, w')
      | (Inr _, w') \<Rightarrow> (Inr success_payload, w'))))"

subsection \<open>Vocabulary of the statements\<close>

text \<open>The item of lines 35 to 42, field by field.\<close>

abbreviation metadata_item ::
  "string \<Rightarrow> string \<Rightarrow> string \<Rightarrow> string \<Rightarrow> string \<Rightarrow> string \<Rightarrow> item" where
  "metadata_item image_id original_key resized_key upload_time source_bucket dest_bucket \<equiv>
     [(''image_id'', image_id),
      (''original_key'', original_key),
      (''resized_key'', resized_key),
      (''upload_time'', upload_time),
      (''source_bucket'', source_bucket),
      (''dest_bucket'', dest_bucket)]"

text \<open>The requests sent between two states of the world.\<close>

definition new_calls :: "world \<Rightarrow> world \<Rightarrow> call list" where
  "new_calls w w' = drop (length (calls w)) (calls w')"

text \<open>The keys of the uploads and the items of the metadata writes among some requests.\<close>

fun put_object_keys :: "call list \<Rightarrow> string list" where
  "put_object_keys [] = []"
| "put_object_keys (PutObject bucket k b content_type # cs) = k # put_object_keys cs"
| "put_object_keys (c # cs) = put_object_keys cs"

fun put_items :: "call list \<Rightarrow> item list" where
  "put_items [] = []"
| "put_items (PutItem it # cs) = it # put_items cs"
| "put_items (c # cs) = put_items cs"

text \<open>
  The \<^verbatim>\<open>image_id\<close> and the \<^verbatim>\<open>original_key\<close> attributes of the metadata writes
  among some requests.
\<close>

definition image_ids :: "call list \<Rightarrow> string option list" where
  "image_ids cs = map (\<lambda>it. map_of it ''image_id'') (put_items cs)"

definition original_keys :: "call list \<Rightarrow> string option list" where
  "original_keys cs = map (\<lambda>it. map_of it ''original_key'') (put_items cs)"

text \<open>
  The items the loop writes for the records \<open>rs\<close> when the first of them takes the
  identifier number \<open>u\<close> and the clock reading number \<open>c\<close>.
\<close>

fun expected_items ::
  "env \<Rightarrow> string \<Rightarrow> string \<Rightarrow> nat \<Rightarrow> nat \<Rightarrow> s3_event_record list \<Rightarrow> item list" where
  "expected_items e sb db u c [] = []"
| "expected_items e sb db u c (r # rs) =
     metadata_item (uuid_source e u) (object_key r) (''resized/'' @ basename (object_key r))
       (isoformat (clock e c)) sb db
     # expected_items e sb db (Suc u) (Suc c) rs"

subsection \<open>Dates and times\<close>

text \<open>
  Modelled from the spec: the type \<^verbatim>\<open>datetime\<close> is Python's standard library, not
  code of this repository (section 3: "processing timestamp (UTC, ISO-8601)"). These are
  the values it can hold; its constructor refuses every other (the year from 1 to 9999,
  a day that the month has).
\<close>

definition is_leap :: "nat \<Rightarrow> bool" where
  "is_leap y = (y mod 4 = 0 \<and> (y mod 100 \<noteq> 0 \<or> y mod 400 = 0))"

definition days_in_month :: "nat \<Rightarrow> nat \<Rightarrow> nat" where
  "days_in_month y m =
     (if m = 2 then (if is_leap y then 29 else 28)
      else if m = 4 \<or> m = 6 \<or> m = 9 \<or> m = 11 then 30 else 31)"

definition valid_datetime :: "datetime \<Rightarrow> bool" where
  "valid_datetime d =
     (1 \<le> year d \<and> year d \<le> 9999 \<and> 1 \<le> month d \<and> month d \<le> 12 \<and>
      1 \<le> day d \<and> day d \<le> days_in_month (year d) (month d) \<and>
      hour d < 24 \<and> minute d < 60 \<and> second d < 60 \<and> microsecond d < 1000000)"

text \<open>
  Modelled from the spec: the order of \<^verbatim>\<open>datetime\<close> values is Python's standard
  library, not code of this repository (section 8: "monotonically non-decreasing").
  Python compares two naive values as the tuples of their fields, the year first: the
  lexicographic order of the lists.
\<close>

definition datetime_le :: "datetime \<Rightarrow> datetime \<Rightarrow> bool" where
  "datetime_le a b =
     ([year a, month a, day a, hour a, minute a, second a, microsecond a]
      \<le> [year b, month b, day b, hour b, minute b, second b, microsecond b])"

text \<open>
  Modelled from the spec: section 8 asks for "a valid ISO-8601 UTC timestamp" and names
  no format. The definitions are the extended format of ISO 8601 for a calendar date
  and a time of day, \<^verbatim>\<open>YYYY-MM-DDThh:mm:ss\<close>, followed by an optional decimal fraction
  of the second (a full stop or a comma and at least one digit) and by an optional zone
  designator: \<^verbatim>\<open>Z\<close> for UTC, or the difference from UTC as \<^verbatim>\<open>+hh:mm\<close>,
  \<^verbatim>\<open>-hh:mm\<close>, \<^verbatim>\<open>+hh\<close> or \<^verbatim>\<open>-hh\<close>. The month, the day of the month, the
  hour, the minute and the second (60 in a leap second) are in range. In ISO 8601 a
  representation without zone designator is a local time; it is a time in UTC when it
  ends in \<^verbatim>\<open>Z\<close> or in a difference of zero. \<open>parse_datetime\<close> reads the date and
  the time of day back from a representation, the fraction to the microsecond.
\<close>

definition is_digit :: "char \<Rightarrow> bool" where
  "is_digit c = (c \<in> set ''0123456789'')"

definition digits_value :: "string \<Rightarrow> nat" where
  "digits_value s = foldl (\<lambda>a c. 10 * a + (of_char c - 48)) 0 s"

definition iso8601_calendar_time :: "string \<Rightarrow> bool" where
  "iso8601_calendar_time s =
     (let yyyy = take 4 s; mm = take 2 (drop 5 s); dd = take 2 (drop 8 s);
          hh = take 2 (drop 11 s); mi = take 2 (drop 14 s); ss = take 2 (drop 17 s)
      in 19 \<le> length s \<and>
         s ! 4 = CHR ''-'' \<and> s ! 7 = CHR ''-'' \<and> s ! 10 = CHR ''T'' \<and>
         s ! 13 = CHR '':'' \<and> s ! 16 = CHR '':'' \<and>
         list_all is_digit (yyyy @ mm @ dd @ hh @ mi @ ss) \<and>
         1 \<le> digits_value mm \<and> digits_value mm \<le> 12 \<and>
         1 \<le> digits_value dd \<and>
         digits_value dd \<le> days_in_month (digits_value yyyy) (digits_value mm) \<and>
         digits_value hh < 24 \<and> digits_value mi < 60 \<and> digits_value ss \<le> 60)"

definition time_fraction :: "string \<Rightarrow> string" where
  "time_fraction s =
     (case drop 19 s of
        [] \<Rightarrow> []
      | c # cs \<Rightarrow> if c = CHR ''.'' \<or> c = CHR '','' then c # takeWhile is_digit cs else [])"

definition zone_designator :: "string \<Rightarrow> string" where
  "zone_designator s = drop (length (time_fraction s)) (drop 19 s)"

definition zone_hours :: "string \<Rightarrow> bool" where
  "zone_hours z =
     (length z = 3 \<and> (hd z = CHR ''+'' \<or> hd z = CHR ''-'') \<and>
      list_all is_digit (tl z) \<and> digits_value (tl z) < 24)"

definition iso8601_zone :: "string \<Rightarrow> bool" where
  "iso8601_zone z =
     (z = ''Z'' \<or> zone_hours z \<or>
      length z = 6 \<and> zone_hours (take 3 z) \<and> z ! 3 = CHR '':'' \<and>
      list_all is_digit (drop 4 z) \<and> digits_value (drop 4 z) < 60)"

definition iso8601_datetime :: "string \<Rightarrow> bool" where
  "iso8601_datetime s =
     (iso8601_calendar_time s \<and>
      (time_fraction s = [] \<or> 2 \<le> length (time_fraction s)) \<and>
      (zone_designator s = [] \<or> iso8601_zone (zone_designator s)))"

definition utc_designator :: "string \<Rightarrow> bool" where
  "utc_designator z = (z = ''Z'' \<or> z = ''+00:00'' \<or> z = ''+00'')"

definition iso8601_utc_datetime :: "string \<Rightarrow> bool" where
  "iso8601_utc_datetime s = (iso8601_datetime s \<and> utc_designator (zone_designator s))"

definition parse_datetime :: "string \<Rightarrow> datetime" where
  "parse_datetime s =
     \<lparr>year = digits_value (take 4 s),
      month = digits_value (take 2 (drop 5 s)),
      day = digits_value (take 2 (drop 8 s)),
      hour = digits_value (take 2 (drop 11 s)),
      minute = digits_value (take 2 (drop 14 s)),
      second = digits_value (take 2 (drop 17 s)),
      microsecond = digits_value (take 6 (tl (time_fraction s) @ replicate 6 CHR ''0''))\<rparr>"

text \<open>The \<open>upload_time\<close> attributes of the metadata writes among some requests.\<close>

definition upload_times :: "call list \<Rightarrow> string list" where
  "upload_times cs = List.map_filter (\<lambda>it. map_of it ''upload_time'') (put_items cs)"

text \<open>
  Two forms used in the proofs: the \<open>k\<close> low decimal digits of a number, and the
  fraction that \<^verbatim>\<open>isoformat\<close> appends.
\<close>

fun fixed_digits :: "nat \<Rightarrow> nat \<Rightarrow> string" where
  "fixed_digits 0 n = []"
| "fixed_digits (Suc k) n = fixed_digits k (n div 10) @ [digit_char (n mod 10)]"

definition iso_fraction :: "nat \<Rightarrow> string" where
  "iso_fraction us = (if us = 0 then [] else CHR ''.'' # fixed_digits 6 us)"

subsection \<open>The scenarios of section 8\<close>

text \<open>
  A source bucket \<^verbatim>\<open>uploads\<close> with the 1000 by 500 picture \<^verbatim>\<open>photos/cat.png\<close> of
  the first scenario, a photograph, a small icon, a logo with an alpha channel and a
  text file; a destination bucket \<^verbatim>\<open>thumbnails\<close>; an empty table; services
  that do not fail; identifiers \<^verbatim>\<open>u\<close>, \<^verbatim>\<open>uu\<close>, and so on; a clock that
  advances by a second at each reading of the first minute.
\<close>

definition scenario_clock :: "nat \<Rightarrow> datetime" where
  "scenario_clock n =
     \<lparr>year = 2024, month = 5, day = 17, hour = 9, minute = 30, second = min n 59,
      microsecond = 250000\<rparr>"

definition scenario_env :: env where
  "scenario_env =
     \<lparr>environ = [''SOURCE_BUCKET'' \<mapsto> ''uploads'', ''DEST_BUCKET'' \<mapsto> ''thumbnails''],
      uuid_source = (\<lambda>n. replicate (Suc n) CHR ''u''),
      clock = scenario_clock,
      faults = (\<lambda>n. None)\<rparr>"

definition scenario_world :: world where
  "scenario_world =
     \<lparr>s3_objects =
        [(''uploads'', ''photos/cat.png'') \<mapsto>
           ImageFile \<lparr>format = ''PNG'', mode = ''RGB'', width = 1000, height = 500\<rparr>,
         (''uploads'', ''pets/dog.jpg'') \<mapsto>
           ImageFile \<lparr>format = ''JPEG'', mode = ''RGB'', width = 640, height = 480\<rparr>,
         (''uploads'', ''icons/star.png'') \<mapsto>
           ImageFile \<lparr>format = ''PNG'', mode = ''RGB'', width = 64, height = 48\<rparr>,
         (''uploads'', ''icons/logo.png'') \<mapsto>
           ImageFile \<lparr>format = ''PNG'', mode = ''RGBA'', width = 64, height = 64\<rparr>,
         (''uploads'', ''notes.txt'') \<mapsto> OtherData ''plain text''],
      ddb_items = Map.empty,
      uuid_count = 0,
      clock_reads = 0,
      calls = []\<rparr>"

text \<open>The same, with a metadata table that refuses the sixth request.\<close>

definition throttled_env :: env where
  "throttled_env =
     scenario_env\<lparr>faults :=
       (\<lambda>n. if n = 5 then Some (ClientError ''ProvisionedThroughputExceededException'')
            else None)\<rparr>"


text \<open>The same, with a clock that is set back by a second after its first reading.\<close>

definition backward_env :: env where
  "backward_env = scenario_env\<lparr>clock := (\<lambda>n. scenario_clock (1 - n))\<rparr>"

text \<open>The states the scenarios pass through.\<close>

definition cat_thumbnail :: blob where
  "cat_thumbnail = ImageFile \<lparr>format = ''JPEG'', mode = ''RGB'', width = 300, height = 150\<rparr>"

definition dog_thumbnail :: blob where
  "dog_thumbnail = ImageFile \<lparr>format = ''JPEG'', mode = ''RGB'', width = 300, height = 225\<rparr>"

definition after_cat :: world where
  "after_cat =
     \<lparr>s3_objects = (s3_objects scenario_world)((''thumbnails'', ''resized/cat.png'') \<mapsto> cat_thumbnail),
      ddb_items =
        [''u'' \<mapsto> metadata_item ''u'' ''photos/cat.png'' ''resized/cat.png''
                   ''2024-05-17T09:30:00.250000'' ''uploads'' ''thumbnails''],
      uuid_count = 1,
      clock_reads = 1,
      calls =
        [GetObject ''uploads'' ''photos/cat.png'',
         PutObject ''thumbnails'' ''resized/cat.png'' cat_thumbnail ''image/jpeg'',
         PutItem (metadata_item ''u'' ''photos/cat.png'' ''resized/cat.png''
                    ''2024-05-17T09:30:00.250000'' ''uploads'' ''thumbnails'')]\<rparr>"

definition after_cat_cat :: world where
  "after_cat_cat =
     \<lparr>s3_objects = (s3_objects scenario_world)((''thumbnails'', ''resized/cat.png'') \<mapsto> cat_thumbnail),
      ddb_items =
        [''u'' \<mapsto> metadata_item ''u'' ''photos/cat.png'' ''resized/cat.png''
                   ''2024-05-17T09:30:00.250000'' ''uploads'' ''thumbnails'',
         ''uu'' \<mapsto> metadata_item ''uu'' ''photos/cat.png'' ''resized/cat.png''
                   ''2024-05-17T09:30:01.250000'' ''uploads'' ''thumbnails''],
      uuid_count = 2,
      clock_reads = 2,
      calls = calls after_cat @
        [GetObject ''uploads'' ''photos/cat.png'',
         PutObject ''thumbnails'' ''resized/cat.png'' cat_thumbnail ''image/jpeg'',
         PutItem (metadata_item ''uu'' ''photos/cat.png'' ''resized/cat.png''
                    ''2024-05-17T09:30:01.250000'' ''uploads'' ''thumbnails'')]\<rparr>"


definition after_cat_dog_throttled :: world where
  "after_cat_dog_throttled =
     \<lparr>s3_objects = (s3_objects after_cat)((''thumbnails'', ''resized/dog.jpg'') \<mapsto> dog_thumbnail),
      ddb_items = ddb_items after_cat,
      uuid_count = 2,
      clock_reads = 2,
      calls = calls after_cat @
        [GetObject ''uploads'' ''pets/dog.jpg'',
         PutObject ''thumbnails'' ''resized/dog.jpg'' dog_thumbnail ''image/jpeg'',
         PutItem (metadata_item ''uu'' ''pets/dog.jpg'' ''resized/dog.jpg''
                    ''2024-05-17T09:30:01.250000'' ''uploads'' ''thumbnails'')]\<rparr>"


definition after_cat_late :: world where
  "after_cat_late =
     \<lparr>s3_objects = (s3_objects scenario_world)((''thumbnails'', ''resized/cat.png'') \<mapsto> cat_thumbnail),
      ddb_items =
        [''u'' \<mapsto> metadata_item ''u'' ''photos/cat.png'' ''resized/cat.png''
                   ''2024-05-17T09:30:01.250000'' ''uploads'' ''thumbnails''],
      uuid_count = 1,
      clock_reads = 1,
      calls =
        [GetObject ''uploads'' ''photos/cat.png'',
         PutObject ''thumbnails'' ''resized/cat.png'' cat_thumbnail ''image/jpeg'',
         PutItem (metadata_item ''u'' ''photos/cat.png'' ''resized/cat.png''
                    ''2024-05-17T09:30:01.250000'' ''uploads'' ''thumbnails'')]\<rparr>"

definition after_cat_cat_backward :: world where
  "after_cat_cat_backward =
     \<lparr>s3_objects = (s3_objects scenario_world)((''thumbnails'', ''resized/cat.png'') \<mapsto> cat_thumbnail),
      ddb_items =
        [''u'' \<mapsto> metadata_item ''u'' ''photos/cat.png'' ''resized/cat.png''
                   ''2024-05-17T09:30:01.250000'' ''uploads'' ''thumbnails'',
         ''uu'' \<mapsto> metadata_item ''uu'' ''photos/cat.png'' ''resized/cat.png''
                   ''2024-05-17T09:30:00.250000'' ''uploads'' ''thumbnails''],
      uuid_count = 2,
      clock_reads = 2,
      calls = calls after_cat_late @
        [GetObject ''uploads'' ''photos/cat.png'',
         PutObject ''thumbnails'' ''resized/cat.png'' cat_thumbnail ''image/jpeg'',
         PutItem (metadata_item ''uu'' ''photos/cat.png'' ''resized/cat.png''
                    ''2024-05-17T09:30:00.250000'' ''uploads'' ''thumbnails'')]\<rparr>"

section \<open>Properties\<close>

subsection \<open>The loop and the handler\<close>

lemma process_records_append:
  "process_records e sb db (xs @ ys) w =
     (case process_records e sb db xs w of
        (Inl err, w') \<Rightarrow> (Inl err, w')
      | (Inr u, w') \<Rightarrow> process_records e sb db ys w')"
  by (induction xs arbitrary: w) (auto split: prod.splits sum.splits)

lemma lambda_handler_Inr:
  assumes "lambda_handler e ev w = (Inr r, w')"
  shows "\<exists>sb db. environ e ''SOURCE_BUCKET'' = Some sb \<and> environ e ''DEST_BUCKET'' = Some db \<and>
           process_records e sb db (Records ev) w = (Inr (), w') \<and> r = success_payload"
  using assms unfolding lambda_handler_def
  by (auto split: option.splits prod.splits sum.splits)

lemma lambda_handler_configured:
  assumes "environ e ''SOURCE_BUCKET'' = Some sb" and "environ e ''DEST_BUCKET'' = Some db"
  shows "lambda_handler e ev w =
           (case process_records e sb db (Records ev) w of
              (Inl err, w') \<Rightarrow> (Inl err, w')
            | (Inr u, w') \<Rightarrow> (Inr success_payload, w'))"
  using assms unfolding lambda_handler_def by simp

lemmas body_defs =
  process_record_def uuid4_def get_object_def put_object_def put_item_def utcnow_def
  Image_open_def send_def Let_def

lemma process_record_succeeds:
  assumes "faults e (length (calls w)) = None"
    and "s3_objects w (sb, k) = Some (ImageFile img)"
    and "thumbnail (300, 300) img = Inr img'"
    and "save_jpeg img' = Inr buf"
    and "faults e (Suc (length (calls w))) = None"
    and "faults e (Suc (Suc (length (calls w)))) = None"
  shows "process_record e sb db (S3Record k) w =
    (Inr (),
     \<lparr>s3_objects = (s3_objects w)((db, ''resized/'' @ basename k) \<mapsto> buf),
      ddb_items = (ddb_items w)(uuid_source e (uuid_count w) \<mapsto>
         metadata_item (uuid_source e (uuid_count w)) k (''resized/'' @ basename k)
           (isoformat (clock e (clock_reads w))) sb db),
      uuid_count = Suc (uuid_count w),
      clock_reads = Suc (clock_reads w),
      calls = calls w @
        [GetObject sb k,
         PutObject db (''resized/'' @ basename k) buf ''image/jpeg'',
         PutItem (metadata_item (uuid_source e (uuid_count w)) k (''resized/'' @ basename k)
           (isoformat (clock e (clock_reads w))) sb db)]\<rparr>)"
  using assms unfolding body_defs by simp

lemma process_record_Inr:
  assumes "process_record e sb db r w = (Inr u, w')"
  shows "\<exists>img img' buf.
      faults e (length (calls w)) = None \<and>
      faults e (Suc (length (calls w))) = None \<and>
      faults e (Suc (Suc (length (calls w)))) = None \<and>
      s3_objects w (sb, object_key r) = Some (ImageFile img) \<and>
      thumbnail (300, 300) img = Inr img' \<and>
      save_jpeg img' = Inr buf \<and>
      w' = \<lparr>s3_objects = (s3_objects w)((db, ''resized/'' @ basename (object_key r)) \<mapsto> buf),
            ddb_items = (ddb_items w)(uuid_source e (uuid_count w) \<mapsto>
               metadata_item (uuid_source e (uuid_count w)) (object_key r)
                 (''resized/'' @ basename (object_key r))
                 (isoformat (clock e (clock_reads w))) sb db),
            uuid_count = Suc (uuid_count w),
            clock_reads = Suc (clock_reads w),
            calls = calls w @
              [GetObject sb (object_key r),
               PutObject db (''resized/'' @ basename (object_key r)) buf ''image/jpeg'',
               PutItem (metadata_item (uuid_source e (uuid_count w)) (object_key r)
                 (''resized/'' @ basename (object_key r))
                 (isoformat (clock e (clock_reads w))) sb db)]\<rparr>"
  using assms unfolding body_defs
  by (auto split: prod.splits sum.splits option.splits blob.splits)

lemma process_record_Inl:
  assumes "process_record e sb db r w = (Inl err, w')"
  shows "w' = \<lparr>s3_objects = s3_objects w, ddb_items = ddb_items w,
               uuid_count = Suc (uuid_count w), clock_reads = clock_reads w,
               calls = calls w @ [GetObject sb (object_key r)]\<rparr>
     \<or> (\<exists>img img' buf.
          s3_objects w (sb, object_key r) = Some (ImageFile img) \<and>
          thumbnail (300, 300) img = Inr img' \<and>
          save_jpeg img' = Inr buf \<and>
          (w' = \<lparr>s3_objects = s3_objects w, ddb_items = ddb_items w,
                  uuid_count = Suc (uuid_count w), clock_reads = clock_reads w,
                  calls = calls w @ [GetObject sb (object_key r),
                    PutObject db (''resized/'' @ basename (object_key r)) buf ''image/jpeg'']\<rparr>
           \<or> w' = \<lparr>s3_objects = (s3_objects w)((db, ''resized/'' @ basename (object_key r)) \<mapsto> buf),
                  ddb_items = ddb_items w,
                  uuid_count = Suc (uuid_count w), clock_reads = Suc (clock_reads w),
                  calls = calls w @ [GetObject sb (object_key r),
                    PutObject db (''resized/'' @ basename (object_key r)) buf ''image/jpeg'',
                    PutItem (metadata_item (uuid_source e (uuid_count w)) (object_key r)
                      (''resized/'' @ basename (object_key r))
                      (isoformat (clock e (clock_reads w))) sb db)]\<rparr>))"
  using assms unfolding body_defs
  by (auto split: prod.splits sum.splits option.splits blob.splits)

lemma process_record_upload_kept:
  assumes "process_record e sb db r w = (Inl err, w')"
    and "PutObject db k buf ct \<in> set (new_calls w w')"
    and "faults e (Suc (length (calls w))) = None"
  shows "s3_objects w' (db, k) = Some buf"
  using assms unfolding body_defs new_calls_def
  by (auto split: prod.splits sum.splits option.splits blob.splits)

subsection \<open>The requests of a batch\<close>

lemma put_object_keys_append [simp]:
  "put_object_keys (xs @ ys) = put_object_keys xs @ put_object_keys ys"
  by (induction xs rule: put_object_keys.induct) simp_all

lemma put_items_append [simp]: "put_items (xs @ ys) = put_items xs @ put_items ys"
  by (induction xs rule: put_items.induct) simp_all

lemma expected_items_map:
  "expected_items e sb db u c rs =
     map (\<lambda>i. metadata_item (uuid_source e (u + i)) (object_key (rs ! i))
                 (''resized/'' @ basename (object_key (rs ! i)))
                 (isoformat (clock e (c + i))) sb db) [0..<length rs]"
proof (induction rs arbitrary: u c)
  case Nil
  show ?case by simp
next
  case (Cons r rs)
  show ?case
    by (simp add: Cons.IH map_upt_Suc del: upt_Suc)
qed

lemma process_record_trace:
  assumes "process_record e sb db r w = (res, w')"
  shows "\<exists>cs. calls w' = calls w @ cs \<and> uuid_count w' = Suc (uuid_count w) \<and>
           (put_object_keys cs = [] \<and> put_items cs = [] \<or>
            put_object_keys cs = [''resized/'' @ basename (object_key r)] \<and>
              (put_items cs = [] \<or>
               put_items cs = expected_items e sb db (uuid_count w) (clock_reads w) [r])) \<and>
           (res = Inr () \<longrightarrow>
              put_object_keys cs = [''resized/'' @ basename (object_key r)] \<and>
              put_items cs = expected_items e sb db (uuid_count w) (clock_reads w) [r] \<and>
              clock_reads w' = Suc (clock_reads w))"
proof (cases res)
  case (Inl err)
  with assms have "process_record e sb db r w = (Inl err, w')" by simp
  from process_record_Inl [OF this] show ?thesis using Inl by auto
next
  case (Inr u)
  with assms have "process_record e sb db r w = (Inr u, w')" by simp
  from process_record_Inr [OF this] show ?thesis using Inr by auto
qed

lemma process_records_trace:
  assumes "process_records e sb db rs w = (res, w')"
  shows "\<exists>cs m p. calls w' = calls w @ cs \<and> m \<le> p \<and> p \<le> length rs \<and>
           put_items cs = expected_items e sb db (uuid_count w) (clock_reads w) (take m rs) \<and>
           put_object_keys cs = map (\<lambda>r. ''resized/'' @ basename (object_key r)) (take p rs) \<and>
           uuid_count w + p \<le> uuid_count w' \<and>
           (res = Inr () \<longrightarrow> m = length rs \<and> uuid_count w' = uuid_count w + length rs \<and>
              clock_reads w' = clock_reads w + length rs)"
  using assms
proof (induction rs arbitrary: w)
  case Nil
  then show ?case by simp
next
  case (Cons r rs)
  obtain res1 w1 where step: "process_record e sb db r w = (res1, w1)"
    by (cases "process_record e sb db r w")
  from process_record_trace [OF step] obtain cs1 where
    c1: "calls w1 = calls w @ cs1" and u1: "uuid_count w1 = Suc (uuid_count w)"
    and k1: "put_object_keys cs1 = [] \<and> put_items cs1 = [] \<or>
            put_object_keys cs1 = [''resized/'' @ basename (object_key r)] \<and>
              (put_items cs1 = [] \<or>
               put_items cs1 = expected_items e sb db (uuid_count w) (clock_reads w) [r])"
    and ok1: "res1 = Inr () \<longrightarrow>
              put_object_keys cs1 = [''resized/'' @ basename (object_key r)] \<and>
              put_items cs1 = expected_items e sb db (uuid_count w) (clock_reads w) [r] \<and>
              clock_reads w1 = Suc (clock_reads w)"
    by blast
  show ?case
  proof (cases res1)
    case (Inl err)
    with Cons.prems step have fin: "res = Inl err" "w' = w1" by simp_all
    from k1 consider
        (a) "put_object_keys cs1 = []" "put_items cs1 = []"
      | (b) "put_object_keys cs1 = [''resized/'' @ basename (object_key r)]" "put_items cs1 = []"
      | (c) "put_object_keys cs1 = [''resized/'' @ basename (object_key r)]"
            "put_items cs1 = expected_items e sb db (uuid_count w) (clock_reads w) [r]"
      by blast
    then show ?thesis
    proof cases
      case a
      show ?thesis
        by (rule exI [of _ cs1], rule exI [of _ 0], rule exI [of _ 0])
           (simp add: fin c1 u1 a)
    next
      case b
      show ?thesis
        by (rule exI [of _ cs1], rule exI [of _ 0], rule exI [of _ 1])
           (simp add: fin c1 u1 b)
    next
      case c
      show ?thesis
        by (rule exI [of _ cs1], rule exI [of _ 1], rule exI [of _ 1])
           (simp add: fin c1 u1 c)
    qed
  next
    case (Inr u)
    with Cons.prems step have rest: "process_records e sb db rs w1 = (res, w')" by simp
    from Inr ok1 have o1: "put_object_keys cs1 = [''resized/'' @ basename (object_key r)]"
      "put_items cs1 = expected_items e sb db (uuid_count w) (clock_reads w) [r]"
      "clock_reads w1 = Suc (clock_reads w)" by simp_all
    from Cons.IH [OF rest] obtain cs2 m p where
      c2: "calls w' = calls w1 @ cs2" and mp: "m \<le> p" "p \<le> length rs"
      and i2: "put_items cs2 = expected_items e sb db (uuid_count w1) (clock_reads w1) (take m rs)"
      and k2: "put_object_keys cs2 = map (\<lambda>r. ''resized/'' @ basename (object_key r)) (take p rs)"
      and u2: "uuid_count w1 + p \<le> uuid_count w'"
      and ok2: "res = Inr () \<longrightarrow> m = length rs \<and> uuid_count w' = uuid_count w1 + length rs \<and>
              clock_reads w' = clock_reads w1 + length rs"
      by blast
    show ?thesis
      by (rule exI [of _ "cs1 @ cs2"], rule exI [of _ "Suc m"], rule exI [of _ "Suc p"])
         (use c1 c2 mp i2 k2 u2 ok2 o1 u1 in simp)
  qed
qed

lemma new_calls_append: "calls w' = calls w @ cs \<Longrightarrow> new_calls w w' = cs"
  by (simp add: new_calls_def)

lemma process_record_table:
  assumes "process_record e sb db r w = (res, w')"
  shows "(\<forall>k. k \<noteq> uuid_source e (uuid_count w) \<longrightarrow> ddb_items w' k = ddb_items w k) \<and>
         dom (ddb_items w') \<subseteq> insert (uuid_source e (uuid_count w)) (dom (ddb_items w)) \<and>
         (res = Inr () \<longrightarrow>
            ddb_items w' (uuid_source e (uuid_count w)) =
              Some (metadata_item (uuid_source e (uuid_count w)) (object_key r)
                      (''resized/'' @ basename (object_key r))
                      (isoformat (clock e (clock_reads w))) sb db))"
proof (cases res)
  case (Inl err)
  with assms have "process_record e sb db r w = (Inl err, w')" by simp
  from process_record_Inl [OF this] show ?thesis using Inl by auto
next
  case (Inr u)
  with assms have "process_record e sb db r w = (Inr u, w')" by simp
  from process_record_Inr [OF this] show ?thesis using Inr by auto
qed

lemma process_records_table:
  assumes "process_records e sb db rs w = (res, w')"
  shows "uuid_count w \<le> uuid_count w' \<and>
         (\<forall>k. k \<notin> uuid_source e ` {uuid_count w ..< uuid_count w'} \<longrightarrow>
              ddb_items w' k = ddb_items w k) \<and>
         dom (ddb_items w') \<subseteq> dom (ddb_items w) \<union> uuid_source e ` {uuid_count w ..< uuid_count w'}"
  using assms
proof (induction rs arbitrary: w)
  case Nil
  then show ?case by auto
next
  case (Cons r rs)
  obtain res1 w1 where step: "process_record e sb db r w = (res1, w1)"
    by (cases "process_record e sb db r w")
  from process_record_trace [OF step] have u1: "uuid_count w1 = Suc (uuid_count w)" by blast
  from process_record_table [OF step] have
    t1: "\<And>k. k \<noteq> uuid_source e (uuid_count w) \<Longrightarrow> ddb_items w1 k = ddb_items w k"
    and d1: "dom (ddb_items w1) \<subseteq> insert (uuid_source e (uuid_count w)) (dom (ddb_items w))"
    by blast+
  show ?case
  proof (cases res1)
    case (Inl err)
    with Cons.prems step have fin: "w' = w1" by simp
    have "{uuid_count w ..< Suc (uuid_count w)} = {uuid_count w}" by auto
    then show ?thesis using t1 d1 by (auto simp: fin u1)
  next
    case (Inr u)
    with Cons.prems step have rest: "process_records e sb db rs w1 = (res, w')" by simp
    from Cons.IH [OF rest] have
      le: "uuid_count w1 \<le> uuid_count w'"
      and t2: "\<And>k. k \<notin> uuid_source e ` {uuid_count w1 ..< uuid_count w'} \<Longrightarrow>
              ddb_items w' k = ddb_items w1 k"
      and d2: "dom (ddb_items w') \<subseteq> dom (ddb_items w1) \<union> uuid_source e ` {uuid_count w1 ..< uuid_count w'}"
      by blast+
    have split: "{uuid_count w ..< uuid_count w'} = insert (uuid_count w) {uuid_count w1 ..< uuid_count w'}"
      using le u1 by auto
    have "\<And>k. k \<notin> uuid_source e ` {uuid_count w ..< uuid_count w'} \<Longrightarrow> ddb_items w' k = ddb_items w k"
    proof -
      fix k assume k: "k \<notin> uuid_source e ` {uuid_count w ..< uuid_count w'}"
      then have "k \<notin> uuid_source e ` {uuid_count w1 ..< uuid_count w'}" "k \<noteq> uuid_source e (uuid_count w)"
        unfolding split by auto
      then show "ddb_items w' k = ddb_items w k" using t1 t2 by simp
    qed
    moreover have "dom (ddb_items w') \<subseteq> dom (ddb_items w) \<union> uuid_source e ` {uuid_count w ..< uuid_count w'}"
      using d1 d2 unfolding split by blast
    moreover have "uuid_count w \<le> uuid_count w'" using le u1 by simp
    ultimately show ?thesis by blast
  qed
qed

lemma process_records_items_stored:
  assumes "process_records e sb db rs w = (Inr u, w')"
    and "inj_on (uuid_source e) {uuid_count w ..< uuid_count w + length rs}"
  shows "set (expected_items e sb db (uuid_count w) (clock_reads w) rs) \<subseteq> ran (ddb_items w')"
  using assms
proof (induction rs arbitrary: w)
  case Nil
  then show ?case by simp
next
  case (Cons r rs)
  obtain res1 w1 where step: "process_record e sb db r w = (res1, w1)"
    by (cases "process_record e sb db r w")
  with Cons.prems(1) have res1: "res1 = Inr ()" by (cases res1) auto
  with Cons.prems(1) step have rest: "process_records e sb db rs w1 = (Inr u, w')" by simp
  from process_record_trace [OF step] res1 have
    u1: "uuid_count w1 = Suc (uuid_count w)" and c1: "clock_reads w1 = Suc (clock_reads w)"
    by auto
  from process_records_trace [OF rest] have u2: "uuid_count w' = uuid_count w1 + length rs"
    by auto
  have inj': "inj_on (uuid_source e) {uuid_count w1 ..< uuid_count w1 + length rs}"
    by (rule inj_on_subset [OF Cons.prems(2)]) (auto simp: u1)
  from Cons.IH [OF rest inj'] have
    tail: "set (expected_items e sb db (Suc (uuid_count w)) (Suc (clock_reads w)) rs) \<subseteq> ran (ddb_items w')"
    by (simp add: u1 c1)
  have "uuid_source e (uuid_count w) \<notin> uuid_source e ` {uuid_count w1 ..< uuid_count w'}"
  proof
    assume "uuid_source e (uuid_count w) \<in> uuid_source e ` {uuid_count w1 ..< uuid_count w'}"
    then obtain n where n: "n \<in> {uuid_count w1 ..< uuid_count w'}"
      and eq: "uuid_source e (uuid_count w) = uuid_source e n" by blast
    from n have "n \<in> {uuid_count w ..< uuid_count w + length (r # rs)}"
      "uuid_count w \<in> {uuid_count w ..< uuid_count w + length (r # rs)}"
      by (auto simp: u1 u2)
    with eq Cons.prems(2) have "uuid_count w = n" by (auto dest: inj_onD)
    with n show False by (simp add: u1)
  qed
  with process_records_table [OF rest] have
    "ddb_items w' (uuid_source e (uuid_count w)) = ddb_items w1 (uuid_source e (uuid_count w))"
    by blast
  also from process_record_table [OF step] res1 have
    "ddb_items w1 (uuid_source e (uuid_count w)) =
       Some (metadata_item (uuid_source e (uuid_count w)) (object_key r)
               (''resized/'' @ basename (object_key r))
               (isoformat (clock e (clock_reads w))) sb db)"
    by blast
  finally have "metadata_item (uuid_source e (uuid_count w)) (object_key r)
               (''resized/'' @ basename (object_key r))
               (isoformat (clock e (clock_reads w))) sb db \<in> ran (ddb_items w')"
    by (rule ranI)
  with tail show ?case by simp
qed

lemma lambda_handler_cases:
  assumes "lambda_handler e ev w = (res, w')"
  shows "(w' = w \<and> (\<exists>v. res = Inl (KeyError v))) \<or>
         (\<exists>sb db r. environ e ''SOURCE_BUCKET'' = Some sb \<and> environ e ''DEST_BUCKET'' = Some db \<and>
            process_records e sb db (Records ev) w = (r, w') \<and>
            (r = Inr () \<longleftrightarrow> (\<exists>ok. res = Inr ok)))"
  using assms unfolding lambda_handler_def
  by (auto split: option.splits prod.splits sum.splits)







lemma length_expected_items [simp]: "length (expected_items e sb db u c rs) = length rs"
  by (induction rs arbitrary: u c) simp_all




lemma image_ids_append [simp]: "image_ids (xs @ ys) = image_ids xs @ image_ids ys"
  by (simp add: image_ids_def)

lemma original_keys_append [simp]: "original_keys (xs @ ys) = original_keys xs @ original_keys ys"
  by (simp add: original_keys_def)

subsection \<open>The resize step\<close>

lemma round_aspect_bounds:
  assumes "0 < v"
  shows "1 \<le> round_aspect v key" and "\<lfloor>v\<rfloor> \<le> round_aspect v key" and "round_aspect v key \<le> \<lceil>v\<rceil>"
proof -
  have c: "1 \<le> \<lceil>v\<rceil>" using assms by (simp add: less_ceiling_iff flip: zless_iff_Suc_zadd)
  have fc: "\<lfloor>v\<rfloor> \<le> \<lceil>v\<rceil>" by (rule floor_le_ceiling)
  show "1 \<le> round_aspect v key" by (simp add: round_aspect_def)
  show "\<lfloor>v\<rfloor> \<le> round_aspect v key" using fc by (auto simp: round_aspect_def max_def)
  show "round_aspect v key \<le> \<lceil>v\<rceil>" using c fc by (auto simp: round_aspect_def max_def)
qed

lemma round_aspect_close:
  assumes "0 < v"
  shows "\<bar>rat_of_int (round_aspect v key) - v\<bar> < 1"
proof -
  have "rat_of_int \<lfloor>v\<rfloor> \<le> rat_of_int (round_aspect v key)"
    using round_aspect_bounds(2) [OF assms] by simp
  moreover have "rat_of_int (round_aspect v key) \<le> rat_of_int \<lceil>v\<rceil>"
    using round_aspect_bounds(3) [OF assms] by simp
  moreover have "v - 1 < rat_of_int \<lfloor>v\<rfloor>" by linarith
  moreover have "rat_of_int \<lceil>v\<rceil> < v + 1" by linarith
  ultimately show ?thesis by linarith
qed

lemma round_aspect_le:
  assumes "0 < v" and "v \<le> rat_of_int b"
  shows "round_aspect v key \<le> b"
proof -
  have "\<lceil>v\<rceil> \<le> b" using assms(2) by (simp add: ceiling_le_iff)
  with round_aspect_bounds(3) [OF assms(1), of key] show ?thesis by linarith
qed

lemma thumbnail_300:
  assumes w: "0 < width im" and h: "0 < height im"
  shows "\<exists>out. thumbnail (300, 300) im = Inr out \<and> format out = format im \<and> mode out = mode im \<and>
           0 < width out \<and> width out \<le> 300 \<and> 0 < height out \<and> height out \<le> 300 \<and>
           (let s = min 1 (min (300 / rat_of_int (width im)) (300 / rat_of_int (height im))) in
              \<bar>rat_of_int (width out) - s * rat_of_int (width im)\<bar> < 1 \<and>
              \<bar>rat_of_int (height out) - s * rat_of_int (height im)\<bar> < 1)"
proof -
  define W where "W = rat_of_int (width im)"
  define H where "H = rat_of_int (height im)"
  have W: "0 < W" and H: "0 < H" using w h by (simp_all add: W_def H_def)
  consider (fits) "width im \<le> 300 \<and> height im \<le> 300"
    | (tall) "\<not> (width im \<le> 300 \<and> height im \<le> 300)" "W / H \<le> 1"
    | (wide) "\<not> (width im \<le> 300 \<and> height im \<le> 300)" "\<not> W / H \<le> 1"
    by blast
  then show ?thesis
  proof cases
    case fits
    then have "W \<le> 300" "H \<le> 300" by (simp_all add: W_def H_def)
    then have s: "min 1 (min (300 / W) (300 / H)) = 1"
      using W H by (simp add: min_def le_divide_eq)
    from fits have "thumbnail (300, 300) im = Inr im"
      by (simp add: thumbnail_def preserve_aspect_ratio_def)
    then show ?thesis using w h fits s by (simp add: W_def H_def)
  next
    case tall
    from tall(2) have WH: "W \<le> H" using H by (simp add: divide_le_eq)
    with tall(1) have h300: "300 < height im" by (auto simp: W_def H_def)
    then have H300: "300 < H" by (simp add: H_def)
    define v where "v = 300 * (W / H)"
    have v: "0 < v" "v \<le> 300" using W H WH by (simp_all add: v_def divide_le_eq)
    have s: "min 1 (min (300 / W) (300 / H)) = 300 / H"
      using W H WH H300 by (simp add: min_def le_divide_eq divide_le_eq frac_le)
    define x where "x = round_aspect v (\<lambda>n. \<bar>W / H - rat_of_int n / 300\<bar>)"
    have th: "thumbnail (300, 300) im = Inr (im\<lparr>width := x, height := 300\<rparr>)"
      using tall h h300 by (simp add: thumbnail_def preserve_aspect_ratio_def Let_def x_def v_def W_def H_def)
    have x1: "1 \<le> x" unfolding x_def by (rule round_aspect_bounds(1) [OF v(1)])
    have x2: "x \<le> 300" unfolding x_def using round_aspect_le [OF v(1), of 300] v(2) by simp
    have x3: "\<bar>rat_of_int x - v\<bar> < 1" unfolding x_def by (rule round_aspect_close [OF v(1)])
    have sv: "300 / H * W = v" by (simp add: v_def)
    have sh: "300 / H * H = 300" using H by simp
    show ?thesis
      using th x1 x2 x3 sv sh s by (simp add: W_def [symmetric] H_def [symmetric])
  next
    case wide
    from wide(2) have WH: "H < W" using H by (simp add: divide_le_eq)
    with wide(1) have w300: "300 < width im" by (auto simp: W_def H_def)
    then have W300: "300 < W" by (simp add: W_def)
    define v where "v = 300 / (W / H)"
    have v: "0 < v" "v \<le> 300" using W H WH by (simp_all add: v_def divide_le_eq)
    have s: "min 1 (min (300 / W) (300 / H)) = 300 / W"
      using W H WH W300 by (simp add: min_def le_divide_eq divide_le_eq frac_le)
    define y where "y = round_aspect v (\<lambda>n. if n = 0 then 0
              else \<bar>rat_of_int (width im) / rat_of_int (height im) - rat_of_int 300 / rat_of_int n\<bar>)"
    have nz: "W / H \<noteq> 0" using W H by simp
    have th: "thumbnail (300, 300) im = Inr (im\<lparr>width := 300, height := y\<rparr>)"
      using wide w h w300 nz
      by (simp add: thumbnail_def preserve_aspect_ratio_def Let_def y_def v_def W_def H_def)
    have y1: "1 \<le> y" unfolding y_def by (rule round_aspect_bounds(1) [OF v(1)])
    have y2: "y \<le> 300" unfolding y_def using round_aspect_le [OF v(1), of 300] v(2) by simp
    have y3: "\<bar>rat_of_int y - v\<bar> < 1" unfolding y_def by (rule round_aspect_close [OF v(1)])
    have sv: "300 / W * H = v" by (simp add: v_def)
    have sh: "300 / W * W = 300" using W by simp
    show ?thesis
      using th y1 y2 y3 sv sh s by (simp add: W_def [symmetric] H_def [symmetric])
  qed
qed

lemma thumbnail_fits:
  assumes "width im \<le> 300" and "height im \<le> 300"
  shows "thumbnail (300, 300) im = Inr im"
  using assms by (simp add: thumbnail_def preserve_aspect_ratio_def)

lemma save_jpeg_Inr:
  assumes "save_jpeg im = Inr b"
  shows "\<exists>stored. b = ImageFile (im\<lparr>format := ''JPEG'', mode := stored\<rparr>)"
  using assms by (auto simp: save_jpeg_def split: option.splits)

lemma derived_object:
  assumes cfg: "environ e ''SOURCE_BUCKET'' = Some sb" "environ e ''DEST_BUCKET'' = Some db"
    and pre: "lambda_handler e \<lparr>Records = before\<rparr> w = (Inr ok, w1)"
    and src: "s3_objects w1 (sb, k) = Some (ImageFile img)"
    and run: "lambda_handler e \<lparr>Records = before @ [S3Record k]\<rparr> w = (Inr ok', w2)"
  shows "\<exists>img' stored. thumbnail (300, 300) img = Inr img' \<and>
           s3_objects w2 (db, ''resized/'' @ basename k) =
             Some (ImageFile (img'\<lparr>format := ''JPEG'', mode := stored\<rparr>)) \<and>
           PutObject db (''resized/'' @ basename k)
             (ImageFile (img'\<lparr>format := ''JPEG'', mode := stored\<rparr>)) ''image/jpeg''
             \<in> set (new_calls w1 w2)"
proof -
  from lambda_handler_Inr [OF pre] cfg have
    p1: "process_records e sb db before w = (Inr (), w1)" by auto
  from lambda_handler_Inr [OF run] cfg have
    "process_records e sb db (before @ [S3Record k]) w = (Inr (), w2)" by auto
  with p1 have one: "process_record e sb db (S3Record k) w1 = (Inr (), w2)"
    by (simp add: process_records_append split: prod.splits sum.splits)
  from process_record_Inr [OF one] src obtain img' buf where
    th: "thumbnail (300, 300) img = Inr img'" and sv: "save_jpeg img' = Inr buf"
    and w2: "s3_objects w2 = (s3_objects w1)((db, ''resized/'' @ basename k) \<mapsto> buf)"
    and c2: "PutObject db (''resized/'' @ basename k) buf ''image/jpeg'' \<in> set (new_calls w1 w2)"
    by (auto simp: new_calls_def)
  from save_jpeg_Inr [OF sv] obtain stored where
    "buf = ImageFile (img'\<lparr>format := ''JPEG'', mode := stored\<rparr>)" by blast
  with th w2 c2 show ?thesis by auto
qed

subsection \<open>The timestamp\<close>

lemma append_less_append:
  fixes u v :: "'a::linorder list"
  assumes "length u = length v"
  shows "u @ x < v @ y \<longleftrightarrow> u < v \<or> u = v \<and> x < y"
  using assms by (induction u v rule: list_induct2) auto

lemma append_le_append:
  fixes u v :: "'a::linorder list"
  assumes "length u = length v"
  shows "u @ x \<le> v @ y \<longleftrightarrow> u < v \<or> u = v \<and> x \<le> y"
  using assms by (induction u v rule: list_induct2) auto

lemma digit_char_below_ten:
  assumes "n < 10"
  shows "n \<in> {0, 1, 2, 3, 4, 5, 6, 7, 8, 9 :: nat}"
  using assms by auto

lemma of_char_digit_char: "n < 10 \<Longrightarrow> of_char (digit_char n) = 48 + n"
  using digit_char_below_ten [of n] by (auto simp: digit_char_def)

lemma digit_char_less: "a < 10 \<Longrightarrow> b < 10 \<Longrightarrow> digit_char a < digit_char b \<longleftrightarrow> a < b"
  by (simp add: less_char_def of_char_digit_char)

lemma digit_char_eq: "a < 10 \<Longrightarrow> b < 10 \<Longrightarrow> digit_char a = digit_char b \<longleftrightarrow> a = b"
  by (metis of_char_digit_char add_left_cancel)

lemma length_fixed_digits [simp]: "length (fixed_digits k n) = k"
  by (induction k arbitrary: n) simp_all

lemma fixed_digits_zero: "fixed_digits k 0 = replicate k CHR ''0''"
  by (induction k) (simp_all add: digit_char_def replicate_append_same)

lemma length_decimal_pos: "0 < length (decimal n)"
  by (subst decimal.simps) simp

lemma zero_padded_fixed:
  assumes "n < 10 ^ k" and "0 < k"
  shows "zero_padded k n = fixed_digits k n"
  using assms
proof (induction k arbitrary: n)
  case 0
  then show ?case by simp
next
  case (Suc k)
  show ?case
  proof (cases "n < 10")
    case True
    then have "decimal n = [digit_char n]" by (subst decimal.simps) simp
    with True show ?thesis
      by (simp add: zero_padded_def fixed_digits_zero)
  next
    case False
    then have d: "decimal n = decimal (n div 10) @ [digit_char (n mod 10)]"
      by (subst decimal.simps) simp
    from False Suc.prems have k: "0 < k" by (cases k) auto
    from Suc.prems have "n div 10 < 10 ^ k" by (simp add: less_mult_imp_div_less mult.commute)
    from Suc.IH [OF this k] have "zero_padded k (n div 10) = fixed_digits k (n div 10)" .
    then show ?thesis
      by (simp add: zero_padded_def d)
  qed
qed

lemma fixed_digits_order:
  assumes "a < 10 ^ k" and "b < 10 ^ k"
  shows "(fixed_digits k a < fixed_digits k b \<longleftrightarrow> a < b) \<and>
         (fixed_digits k a = fixed_digits k b \<longleftrightarrow> a = b)"
  using assms
proof (induction k arbitrary: a b)
  case 0
  then show ?case by simp
next
  case (Suc k)
  from Suc.prems have q: "a div 10 < 10 ^ k" "b div 10 < 10 ^ k"
    by (simp_all add: less_mult_imp_div_less mult.commute)
  note ih = Suc.IH [OF q]
  have r: "a mod 10 < 10" "b mod 10 < 10" by simp_all
  define qa ra qb rb where "qa = a div 10" and "ra = a mod 10" and "qb = b div 10" and "rb = b mod 10"
  have split: "a = 10 * qa + ra" "b = 10 * qb + rb" "ra < 10" "rb < 10"
    by (simp_all add: qa_def ra_def qb_def rb_def)
  have "a < b \<longleftrightarrow> qa < qb \<or> qa = qb \<and> ra < rb"
    using split by linarith
  then have lt: "a < b \<longleftrightarrow> a div 10 < b div 10 \<or> a div 10 = b div 10 \<and> a mod 10 < b mod 10"
    by (simp only: qa_def ra_def qb_def rb_def)
  have "a = b \<longleftrightarrow> qa = qb \<and> ra = rb"
    by (metis split(1) split(2) qa_def qb_def ra_def rb_def)
  then have eq: "a = b \<longleftrightarrow> a div 10 = b div 10 \<and> a mod 10 = b mod 10"
    by (simp only: qa_def ra_def qb_def rb_def)
  have L: "fixed_digits (Suc k) a < fixed_digits (Suc k) b \<longleftrightarrow>
      fixed_digits k (a div 10) < fixed_digits k (b div 10) \<or>
      fixed_digits k (a div 10) = fixed_digits k (b div 10) \<and>
        digit_char (a mod 10) < digit_char (b mod 10)"
    by (simp add: append_less_append)
  have E: "fixed_digits (Suc k) a = fixed_digits (Suc k) b \<longleftrightarrow>
      fixed_digits k (a div 10) = fixed_digits k (b div 10) \<and>
        digit_char (a mod 10) = digit_char (b mod 10)"
    by simp
  from ih have i1: "fixed_digits k (a div 10) < fixed_digits k (b div 10) \<longleftrightarrow> a div 10 < b div 10"
    and i2: "fixed_digits k (a div 10) = fixed_digits k (b div 10) \<longleftrightarrow> a div 10 = b div 10"
    by blast+
  show ?case
    unfolding L E i1 i2 digit_char_less [OF r] digit_char_eq [OF r]
    using lt eq by blast
qed

lemma is_digit_digit_char: "is_digit (digit_char n)"
proof -
  have "n mod 10 < 10" by simp
  from digit_char_below_ten [OF this] show ?thesis
    by (auto simp: is_digit_def digit_char_def)
qed

lemma all_digits_fixed_digits: "list_all is_digit (fixed_digits k n)"
  by (induction k arbitrary: n) (simp_all add: is_digit_digit_char)

lemma digits_value_snoc:
  "digits_value (s @ [c]) = 10 * digits_value s + (of_char c - 48)"
  by (simp add: digits_value_def)

lemma digits_value_fixed_digits: "n < 10 ^ k \<Longrightarrow> digits_value (fixed_digits k n) = n"
proof (induction k arbitrary: n)
  case 0
  then show ?case by (simp add: digits_value_def)
next
  case (Suc k)
  from Suc.prems have "n div 10 < 10 ^ k"
    by (simp add: less_mult_imp_div_less mult.commute)
  from Suc.IH [OF this] show ?case
    by (simp add: digits_value_snoc of_char_digit_char)
qed

lemma isoformat_fixed:
  assumes "valid_datetime d"
  shows "isoformat d =
    fixed_digits 4 (year d) @ CHR ''-'' # fixed_digits 2 (month d) @ CHR ''-'' #
    fixed_digits 2 (day d) @ CHR ''T'' # fixed_digits 2 (hour d) @ CHR '':'' #
    fixed_digits 2 (minute d) @ CHR '':'' # fixed_digits 2 (second d) @
    iso_fraction (microsecond d)"
proof -
  from assms have b: "year d < 10000" "month d < 100" "day d < 100" "hour d < 100"
    "minute d < 100" "second d < 100" "microsecond d < 1000000"
    by (auto simp: valid_datetime_def days_in_month_def split: if_splits)
  have z: "zero_padded 4 (year d) = fixed_digits 4 (year d)"
    "zero_padded 2 (month d) = fixed_digits 2 (month d)"
    "zero_padded 2 (day d) = fixed_digits 2 (day d)"
    "zero_padded 2 (hour d) = fixed_digits 2 (hour d)"
    "zero_padded 2 (minute d) = fixed_digits 2 (minute d)"
    "zero_padded 2 (second d) = fixed_digits 2 (second d)"
    "zero_padded 6 (microsecond d) = fixed_digits 6 (microsecond d)"
    using b by (simp_all add: zero_padded_fixed del: fixed_digits.simps)
  show ?thesis
    by (simp add: isoformat_def iso_fraction_def z del: fixed_digits.simps)
qed

lemma block_le:
  assumes "a < 10 ^ k" and "b < 10 ^ k"
  shows "fixed_digits k a @ x \<le> fixed_digits k b @ y \<longleftrightarrow> a < b \<or> a = b \<and> x \<le> y"
  using fixed_digits_order [OF assms] by (simp add: append_le_append)

lemma iso_fraction_le:
  assumes "a < 10 ^ 6" and "b < 10 ^ 6"
  shows "iso_fraction a \<le> iso_fraction b \<longleftrightarrow> a \<le> b"
proof -
  from fixed_digits_order [OF assms] have
    "fixed_digits 6 a \<le> fixed_digits 6 b \<longleftrightarrow> a \<le> b"
    by (auto simp: le_less)
  then show ?thesis
    by (auto simp: iso_fraction_def simp del: fixed_digits.simps)
qed

lemma valid_datetime_bounds:
  assumes "valid_datetime d"
  shows "year d < 10 ^ 4" "month d < 10 ^ 2" "day d < 10 ^ 2" "hour d < 10 ^ 2"
    "minute d < 10 ^ 2" "second d < 10 ^ 2" "microsecond d < 10 ^ 6"
  using assms by (auto simp: valid_datetime_def days_in_month_def split: if_splits)

lemma isoformat_le_iff:
  assumes a: "valid_datetime a" and b: "valid_datetime b"
  shows "isoformat a \<le> isoformat b \<longleftrightarrow> datetime_le a b"
proof -
  note A = valid_datetime_bounds [OF a] and B = valid_datetime_bounds [OF b]
  have us: "iso_fraction (microsecond a) \<le> iso_fraction (microsecond b) \<longleftrightarrow>
      microsecond a \<le> microsecond b"
    by (rule iso_fraction_le [OF A(7) B(7)])
  have "isoformat a \<le> isoformat b \<longleftrightarrow>
    year a < year b \<or> year a = year b \<and>
     (month a < month b \<or> month a = month b \<and>
      (day a < day b \<or> day a = day b \<and>
       (hour a < hour b \<or> hour a = hour b \<and>
        (minute a < minute b \<or> minute a = minute b \<and>
         (second a < second b \<or> second a = second b \<and>
           microsecond a \<le> microsecond b)))))"
    unfolding isoformat_fixed [OF a] isoformat_fixed [OF b]
      block_le [OF A(1) B(1)] Cons_le_Cons block_le [OF A(2) B(2)] block_le [OF A(3) B(3)]
      block_le [OF A(4) B(4)] block_le [OF A(5) B(5)] block_le [OF A(6) B(6)] us
    by simp
  also have "\<dots> \<longleftrightarrow> datetime_le a b"
    by (auto simp: datetime_le_def)
  finally show ?thesis .
qed

lemma drop_isoformat:
  assumes "valid_datetime d"
  shows "drop 19 (isoformat d) = iso_fraction (microsecond d)"
  unfolding isoformat_fixed [OF assms] by (simp del: fixed_digits.simps)

lemma takeWhile_fixed_digits: "takeWhile is_digit (fixed_digits k n) = fixed_digits k n"
  using all_digits_fixed_digits [of k n] by (simp add: list_all_iff del: fixed_digits.simps)

lemma time_fraction_isoformat:
  assumes "valid_datetime d"
  shows "time_fraction (isoformat d) = iso_fraction (microsecond d)"
  by (simp add: time_fraction_def drop_isoformat [OF assms] iso_fraction_def
      takeWhile_fixed_digits del: fixed_digits.simps)

lemma zone_designator_isoformat:
  assumes "valid_datetime d"
  shows "zone_designator (isoformat d) = []"
  by (simp add: zone_designator_def time_fraction_isoformat [OF assms] drop_isoformat [OF assms])

lemma iso8601_calendar_time_isoformat:
  assumes "valid_datetime d"
  shows "iso8601_calendar_time (isoformat d)"
proof -
  note B = valid_datetime_bounds [OF assms]
  note V = digits_value_fixed_digits [OF B(1)] digits_value_fixed_digits [OF B(2)]
    digits_value_fixed_digits [OF B(3)] digits_value_fixed_digits [OF B(4)]
    digits_value_fixed_digits [OF B(5)] digits_value_fixed_digits [OF B(6)]
  show ?thesis
    unfolding iso8601_calendar_time_def isoformat_fixed [OF assms] Let_def
    using assms
    by (simp add: V nth_append all_digits_fixed_digits valid_datetime_def del: fixed_digits.simps)
qed

lemma iso8601_isoformat:
  assumes "valid_datetime d"
  shows "iso8601_datetime (isoformat d)"
proof -
  have "time_fraction (isoformat d) = [] \<or> 2 \<le> length (time_fraction (isoformat d))"
    by (simp add: time_fraction_isoformat [OF assms] iso_fraction_def del: fixed_digits.simps)
  then show ?thesis
    by (simp add: iso8601_datetime_def iso8601_calendar_time_isoformat [OF assms]
        zone_designator_isoformat [OF assms])
qed

lemma parse_isoformat:
  assumes "valid_datetime d"
  shows "parse_datetime (isoformat d) = d"
proof -
  note B = valid_datetime_bounds [OF assms]
  note V = digits_value_fixed_digits [OF B(1)] digits_value_fixed_digits [OF B(2)]
    digits_value_fixed_digits [OF B(3)] digits_value_fixed_digits [OF B(4)]
    digits_value_fixed_digits [OF B(5)] digits_value_fixed_digits [OF B(6)]
  have zero: "digits_value (replicate 6 CHR ''0'') = 0"
    using digits_value_fixed_digits [of 0 6] by (simp only: fixed_digits_zero) simp
  have us: "digits_value (take 6 (tl (time_fraction (isoformat d)) @ replicate 6 CHR ''0'')) =
      microsecond d"
  proof (cases "microsecond d = 0")
    case True
    with zero show ?thesis
      by (simp add: time_fraction_isoformat [OF assms] iso_fraction_def del: replicate.simps)
  next
    case False
    with digits_value_fixed_digits [OF B(7)] show ?thesis
      by (simp add: time_fraction_isoformat [OF assms] iso_fraction_def del: fixed_digits.simps)
  qed
  have fields: "digits_value (take 4 (isoformat d)) = year d"
    "digits_value (take 2 (drop 5 (isoformat d))) = month d"
    "digits_value (take 2 (drop 8 (isoformat d))) = day d"
    "digits_value (take 2 (drop 11 (isoformat d))) = hour d"
    "digits_value (take 2 (drop 14 (isoformat d))) = minute d"
    "digits_value (take 2 (drop 17 (isoformat d))) = second d"
    unfolding isoformat_fixed [OF assms] by (simp_all add: V del: fixed_digits.simps)
  show ?thesis
    unfolding parse_datetime_def us fields by simp
qed

lemma sorted_isoformat:
  assumes "\<forall>i < n. valid_datetime (g i)"
  shows "sorted (map (\<lambda>i. isoformat (g i)) [0..<n]) \<longleftrightarrow>
         (\<forall>i. Suc i < n \<longrightarrow> datetime_le (g i) (g (Suc i)))"
proof -
  have "sorted (map (\<lambda>i. isoformat (g i)) [0..<n]) \<longleftrightarrow>
        (\<forall>i. Suc i < n \<longrightarrow> isoformat (g i) \<le> isoformat (g (Suc i)))"
    by (simp add: sorted_iff_nth_Suc)
  also have "\<dots> \<longleftrightarrow> (\<forall>i. Suc i < n \<longrightarrow> datetime_le (g i) (g (Suc i)))"
  proof (intro all_cong1 imp_cong refl)
    fix i assume "Suc i < n"
    with assms have "valid_datetime (g i)" "valid_datetime (g (Suc i))" by simp_all
    then show "isoformat (g i) \<le> isoformat (g (Suc i)) \<longleftrightarrow> datetime_le (g i) (g (Suc i))"
      by (rule isoformat_le_iff)
  qed
  finally show ?thesis .
qed

lemma expected_items_upload_times:
  "List.map_filter (\<lambda>it. map_of it ''upload_time'') (expected_items e sb db u c rs) =
     map (\<lambda>i. isoformat (clock e (c + i))) [0..<length rs]"
proof (induction rs arbitrary: u c)
  case Nil
  show ?case by (simp add: List.map_filter_simps)
next
  case (Cons r rs)
  show ?case
    by (simp add: List.map_filter_simps Cons.IH map_upt_Suc del: upt_Suc)
qed

subsection \<open>The scenarios, run\<close>

lemma thumbnail_cat:
  "thumbnail (300, 300) \<lparr>format = ''PNG'', mode = ''RGB'', width = 1000, height = 500\<rparr> =
     Inr \<lparr>format = ''PNG'', mode = ''RGB'', width = 300, height = 150\<rparr>"
  by (simp add: thumbnail_def preserve_aspect_ratio_def round_aspect_def)

lemma thumbnail_dog:
  "thumbnail (300, 300) \<lparr>format = ''JPEG'', mode = ''RGB'', width = 640, height = 480\<rparr> =
     Inr \<lparr>format = ''JPEG'', mode = ''RGB'', width = 300, height = 225\<rparr>"
  by (simp add: thumbnail_def preserve_aspect_ratio_def round_aspect_def)

lemma save_jpeg_RGB:
  "save_jpeg \<lparr>format = f, mode = ''RGB'', width = x, height = y\<rparr> =
     Inr (ImageFile \<lparr>format = ''JPEG'', mode = ''RGB'', width = x, height = y\<rparr>)"
  by (simp add: save_jpeg_def RAWMODE_def)

lemma basename_cat: "basename ''photos/cat.png'' = ''cat.png''"
  by (simp add: basename_def)

lemma basename_dog: "basename ''pets/dog.jpg'' = ''dog.jpg''"
  by (simp add: basename_def)

lemma isoformat_scenario_clock_0: "isoformat (scenario_clock 0) = ''2024-05-17T09:30:00.250000''"
  by (simp add: isoformat_def zero_padded_def decimal.simps digit_char_def scenario_clock_def)

lemma isoformat_scenario_clock_1:
  "isoformat (scenario_clock (Suc 0)) = ''2024-05-17T09:30:01.250000''"
  by (simp add: isoformat_def zero_padded_def decimal.simps digit_char_def scenario_clock_def)

lemmas scenario_simps =
  scenario_env_def throttled_env_def scenario_world_def after_cat_def after_cat_cat_def
  after_cat_dog_throttled_def cat_thumbnail_def dog_thumbnail_def
  thumbnail_cat thumbnail_dog save_jpeg_RGB basename_cat basename_dog
  isoformat_scenario_clock_0 isoformat_scenario_clock_1

lemma run_cat:
  "process_record scenario_env ''uploads'' ''thumbnails'' (S3Record ''photos/cat.png'') scenario_world =
     (Inr (), after_cat)"
  unfolding body_defs by (simp add: scenario_simps)

lemma run_cat_throttled:
  "process_record throttled_env ''uploads'' ''thumbnails'' (S3Record ''photos/cat.png'') scenario_world =
     (Inr (), after_cat)"
  unfolding body_defs by (simp add: scenario_simps)

lemma run_cat_cat:
  "process_record scenario_env ''uploads'' ''thumbnails'' (S3Record ''photos/cat.png'') after_cat =
     (Inr (), after_cat_cat)"
  unfolding body_defs by (simp add: scenario_simps)

lemma run_cat_dog_throttled:
  "process_record throttled_env ''uploads'' ''thumbnails'' (S3Record ''pets/dog.jpg'') after_cat =
     (Inl (ClientError ''ProvisionedThroughputExceededException''), after_cat_dog_throttled)"
  unfolding body_defs by (simp add: scenario_simps)

lemma scenario_environ:
  "environ scenario_env ''SOURCE_BUCKET'' = Some ''uploads''"
  "environ scenario_env ''DEST_BUCKET'' = Some ''thumbnails''"
  "environ throttled_env ''SOURCE_BUCKET'' = Some ''uploads''"
  "environ throttled_env ''DEST_BUCKET'' = Some ''thumbnails''"
  by (simp_all add: scenario_env_def throttled_env_def)

lemma run_logo:
  "process_record scenario_env ''uploads'' ''thumbnails'' (S3Record ''icons/logo.png'') scenario_world =
     (Inl (OSError ''cannot write mode RGBA as JPEG''),
      scenario_world\<lparr>uuid_count := 1, calls := [GetObject ''uploads'' ''icons/logo.png'']\<rparr>)"
  unfolding body_defs
  by (simp add: scenario_env_def scenario_world_def thumbnail_def preserve_aspect_ratio_def
      save_jpeg_def RAWMODE_def)

lemma run_cat_then_cat:
  "process_records scenario_env ''uploads'' ''thumbnails''
     [S3Record ''photos/cat.png'', S3Record ''photos/cat.png''] scenario_world = (Inr (), after_cat_cat)"
  by (simp add: run_cat) (simp add: run_cat_cat)

lemma handler_cat:
  "lambda_handler scenario_env \<lparr>Records = [S3Record ''photos/cat.png'']\<rparr> scenario_world =
     (Inr success_payload, after_cat)"
  by (simp add: lambda_handler_configured [OF scenario_environ(1) scenario_environ(2)] run_cat)

lemma handler_cat_again:
  "lambda_handler scenario_env \<lparr>Records = [S3Record ''photos/cat.png'']\<rparr> after_cat =
     (Inr success_payload, after_cat_cat)"
  by (simp add: lambda_handler_configured [OF scenario_environ(1) scenario_environ(2)] run_cat_cat)

lemma handler_cat_cat:
  "lambda_handler scenario_env
     \<lparr>Records = [S3Record ''photos/cat.png'', S3Record ''photos/cat.png'']\<rparr> scenario_world =
     (Inr success_payload, after_cat_cat)"
  by (simp add: lambda_handler_configured [OF scenario_environ(1) scenario_environ(2)]
      run_cat_then_cat del: process_records.simps)

lemma scenario_uuid_inj: "inj (uuid_source scenario_env)"
  by (simp add: scenario_env_def inj_def)

lemma new_calls_cat_cat:
  "new_calls scenario_world after_cat_cat =
     [GetObject ''uploads'' ''photos/cat.png'',
      PutObject ''thumbnails'' ''resized/cat.png'' cat_thumbnail ''image/jpeg'',
      PutItem (metadata_item ''u'' ''photos/cat.png'' ''resized/cat.png''
                 ''2024-05-17T09:30:00.250000'' ''uploads'' ''thumbnails''),
      GetObject ''uploads'' ''photos/cat.png'',
      PutObject ''thumbnails'' ''resized/cat.png'' cat_thumbnail ''image/jpeg'',
      PutItem (metadata_item ''uu'' ''photos/cat.png'' ''resized/cat.png''
                 ''2024-05-17T09:30:01.250000'' ''uploads'' ''thumbnails'')]"
  by (simp add: new_calls_def after_cat_cat_def after_cat_def scenario_world_def)

lemma handler_nothing:
  "lambda_handler scenario_env \<lparr>Records = []\<rparr> scenario_world = (Inr success_payload, scenario_world)"
  by (simp add: lambda_handler_configured [OF scenario_environ(1) scenario_environ(2)])

lemma scenario_clock_valid: "valid_datetime (scenario_clock n)"
  by (simp add: scenario_clock_def valid_datetime_def days_in_month_def)

lemma scenario_clock_steps: "datetime_le (scenario_clock n) (scenario_clock (Suc n))"
  by (simp add: scenario_clock_def datetime_le_def min_def)












lemma backward_environ:
  "environ backward_env ''SOURCE_BUCKET'' = Some ''uploads''"
  "environ backward_env ''DEST_BUCKET'' = Some ''thumbnails''"
  by (simp_all add: backward_env_def scenario_env_def)

lemma run_cat_backward:
  "process_record backward_env ''uploads'' ''thumbnails'' (S3Record ''photos/cat.png'') scenario_world =
     (Inr (), after_cat_late)"
  unfolding body_defs by (simp add: scenario_simps backward_env_def after_cat_late_def)

lemma run_cat_cat_backward:
  "process_record backward_env ''uploads'' ''thumbnails'' (S3Record ''photos/cat.png'') after_cat_late =
     (Inr (), after_cat_cat_backward)"
  unfolding body_defs
  by (simp add: scenario_simps backward_env_def after_cat_late_def after_cat_cat_backward_def)

lemma handler_cat_cat_backward:
  "lambda_handler backward_env
     \<lparr>Records = [S3Record ''photos/cat.png'', S3Record ''photos/cat.png'']\<rparr> scenario_world =
     (Inr success_payload, after_cat_cat_backward)"
  by (simp add: lambda_handler_configured [OF backward_environ] run_cat_backward)
     (simp add: run_cat_cat_backward)

lemma new_calls_cat_cat_backward:
  "new_calls scenario_world after_cat_cat_backward =
     [GetObject ''uploads'' ''photos/cat.png'',
      PutObject ''thumbnails'' ''resized/cat.png'' cat_thumbnail ''image/jpeg'',
      PutItem (metadata_item ''u'' ''photos/cat.png'' ''resized/cat.png''
                 ''2024-05-17T09:30:01.250000'' ''uploads'' ''thumbnails''),
      GetObject ''uploads'' ''photos/cat.png'',
      PutObject ''thumbnails'' ''resized/cat.png'' cat_thumbnail ''image/jpeg'',
      PutItem (metadata_item ''uu'' ''photos/cat.png'' ''resized/cat.png''
                 ''2024-05-17T09:30:00.250000'' ''uploads'' ''thumbnails'')]"
  by (simp add: new_calls_def after_cat_cat_backward_def after_cat_late_def scenario_world_def)

section \<open>The claims\<close>

text \<open>
  C1. Let the handler have got through the records \<open>before\<close>, reaching the state
  \<open>w1\<close>, and let the source object of the next record be a picture \<open>img\<close> of
  positive width and height. If the handler gets through that record too, the object
  it has uploaded under the destination key is a JPEG picture \<open>out\<close> whose width
  and height lie between 1 and 300. With \<open>s\<close> the scale that fits \<open>img\<close> into the
  300 by 300 box without enlarging it (the least of 1, 300 / width and 300 / height),
  the width and the height of \<open>out\<close> differ from \<open>s\<close> times the width and the
  height of \<open>img\<close> by less than one unit: the aspect ratio is kept up to the rounding
  to whole units.
\<close>

theorem resized_raster_within_300:
  assumes "environ e ''SOURCE_BUCKET'' = Some source_bucket"
    and "environ e ''DEST_BUCKET'' = Some dest_bucket"
    and "lambda_handler e \<lparr>Records = before\<rparr> w = (Inr ok, w1)"
    and "s3_objects w1 (source_bucket, k) = Some (ImageFile img)"
    and "0 < width img" and "0 < height img"
    and "lambda_handler e \<lparr>Records = before @ [S3Record k]\<rparr> w = (Inr ok', w2)"
  shows "\<exists>out. s3_objects w2 (dest_bucket, ''resized/'' @ basename k) = Some (ImageFile out) \<and>
           PutObject dest_bucket (''resized/'' @ basename k) (ImageFile out) ''image/jpeg''
             \<in> set (new_calls w1 w2) \<and>
           format out = ''JPEG'' \<and>
           0 < width out \<and> width out \<le> 300 \<and> 0 < height out \<and> height out \<le> 300 \<and>
           (let s = min 1 (min (300 / rat_of_int (width img)) (300 / rat_of_int (height img))) in
              \<bar>rat_of_int (width out) - s * rat_of_int (width img)\<bar> < 1 \<and>
              \<bar>rat_of_int (height out) - s * rat_of_int (height img)\<bar> < 1)"
proof -
  from derived_object [OF assms(1,2,3,4,7)] obtain img' stored where
    th: "thumbnail (300, 300) img = Inr img'"
    and obj: "s3_objects w2 (dest_bucket, ''resized/'' @ basename k) =
             Some (ImageFile (img'\<lparr>format := ''JPEG'', mode := stored\<rparr>))"
    and req: "PutObject dest_bucket (''resized/'' @ basename k)
             (ImageFile (img'\<lparr>format := ''JPEG'', mode := stored\<rparr>)) ''image/jpeg''
             \<in> set (new_calls w1 w2)"
    by blast
  from thumbnail_300 [OF assms(5,6)] th have
    "0 < width img' \<and> width img' \<le> 300 \<and> 0 < height img' \<and> height img' \<le> 300 \<and>
     (let s = min 1 (min (300 / rat_of_int (width img)) (300 / rat_of_int (height img))) in
        \<bar>rat_of_int (width img') - s * rat_of_int (width img)\<bar> < 1 \<and>
        \<bar>rat_of_int (height img') - s * rat_of_int (height img)\<bar> < 1)"
    by auto
  with obj req show ?thesis
    by (intro exI [of _ "img'\<lparr>format := ''JPEG'', mode := stored\<rparr>"]) simp
qed

theorem resized_raster_within_300_witness:
  "environ scenario_env ''SOURCE_BUCKET'' = Some ''uploads'' \<and>
   environ scenario_env ''DEST_BUCKET'' = Some ''thumbnails'' \<and>
   lambda_handler scenario_env \<lparr>Records = []\<rparr> scenario_world = (Inr success_payload, scenario_world) \<and>
   s3_objects scenario_world (''uploads'', ''photos/cat.png'') =
     Some (ImageFile \<lparr>format = ''PNG'', mode = ''RGB'', width = 1000, height = 500\<rparr>) \<and>
   lambda_handler scenario_env \<lparr>Records = [] @ [S3Record ''photos/cat.png'']\<rparr> scenario_world =
     (Inr success_payload, after_cat) \<and>
   s3_objects after_cat (''thumbnails'', ''resized/cat.png'') =
     Some (ImageFile \<lparr>format = ''JPEG'', mode = ''RGB'', width = 300, height = 150\<rparr>) \<and>
   (\<exists>out. s3_objects after_cat (''thumbnails'', ''resized/'' @ basename ''photos/cat.png'') =
            Some (ImageFile out) \<and>
          0 < width out \<and> width out \<le> 300 \<and> 0 < height out \<and> height out \<le> 300)"
proof -
  have src: "s3_objects scenario_world (''uploads'', ''photos/cat.png'') =
     Some (ImageFile \<lparr>format = ''PNG'', mode = ''RGB'', width = 1000, height = 500\<rparr>)"
    by (simp add: scenario_world_def)
  have run: "lambda_handler scenario_env \<lparr>Records = [] @ [S3Record ''photos/cat.png'']\<rparr> scenario_world =
     (Inr success_payload, after_cat)"
    by (simp add: handler_cat)
  have "\<exists>out. s3_objects after_cat (''thumbnails'', ''resized/'' @ basename ''photos/cat.png'') =
            Some (ImageFile out) \<and>
          0 < width out \<and> width out \<le> 300 \<and> 0 < height out \<and> height out \<le> 300"
    using resized_raster_within_300 [OF scenario_environ(1) scenario_environ(2) handler_nothing src _ _ run]
    by auto
  moreover have "s3_objects after_cat (''thumbnails'', ''resized/cat.png'') =
     Some (ImageFile \<lparr>format = ''JPEG'', mode = ''RGB'', width = 300, height = 150\<rparr>)"
    by (simp add: after_cat_def cat_thumbnail_def)
  ultimately show ?thesis
    using src run by (simp add: scenario_environ handler_nothing)
qed

text \<open>
  C2. In the same setting, when the width and the height of the source picture are both
  smaller than 300, the picture uploaded under the destination key has the width and
  the height of the source picture: the resize step does not enlarge.
\<close>

theorem small_picture_keeps_its_size:
  assumes "environ e ''SOURCE_BUCKET'' = Some source_bucket"
    and "environ e ''DEST_BUCKET'' = Some dest_bucket"
    and "lambda_handler e \<lparr>Records = before\<rparr> w = (Inr ok, w1)"
    and "s3_objects w1 (source_bucket, k) = Some (ImageFile img)"
    and "0 < width img" and "width img < 300" and "0 < height img" and "height img < 300"
    and "lambda_handler e \<lparr>Records = before @ [S3Record k]\<rparr> w = (Inr ok', w2)"
  shows "\<exists>out. s3_objects w2 (dest_bucket, ''resized/'' @ basename k) = Some (ImageFile out) \<and>
           PutObject dest_bucket (''resized/'' @ basename k) (ImageFile out) ''image/jpeg''
             \<in> set (new_calls w1 w2) \<and>
           width out = width img \<and> height out = height img"
proof -
  from derived_object [OF assms(1,2,3,4,9)] obtain img' stored where
    th: "thumbnail (300, 300) img = Inr img'"
    and obj: "s3_objects w2 (dest_bucket, ''resized/'' @ basename k) =
             Some (ImageFile (img'\<lparr>format := ''JPEG'', mode := stored\<rparr>))"
    and req: "PutObject dest_bucket (''resized/'' @ basename k)
             (ImageFile (img'\<lparr>format := ''JPEG'', mode := stored\<rparr>)) ''image/jpeg''
             \<in> set (new_calls w1 w2)"
    by blast
  from assms(6,8) have "thumbnail (300, 300) img = Inr img"
    by (intro thumbnail_fits) simp_all
  with th have "img' = img" by simp
  with obj req show ?thesis
    by (intro exI [of _ "img'\<lparr>format := ''JPEG'', mode := stored\<rparr>"]) simp
qed

theorem small_picture_keeps_its_size_witness:
  "environ scenario_env ''SOURCE_BUCKET'' = Some ''uploads'' \<and>
   environ scenario_env ''DEST_BUCKET'' = Some ''thumbnails'' \<and>
   lambda_handler scenario_env \<lparr>Records = []\<rparr> scenario_world = (Inr success_payload, scenario_world) \<and>
   s3_objects scenario_world (''uploads'', ''icons/star.png'') =
     Some (ImageFile \<lparr>format = ''PNG'', mode = ''RGB'', width = 64, height = 48\<rparr>) \<and>
   (\<exists>w2. lambda_handler scenario_env \<lparr>Records = [] @ [S3Record ''icons/star.png'']\<rparr> scenario_world =
           (Inr success_payload, w2) \<and>
         (\<exists>out. s3_objects w2 (''thumbnails'', ''resized/'' @ basename ''icons/star.png'') =
                  Some (ImageFile out) \<and>
                width out = 64 \<and> height out = 48))"
proof -
  have src: "s3_objects scenario_world (''uploads'', ''icons/star.png'') =
     Some (ImageFile \<lparr>format = ''PNG'', mode = ''RGB'', width = 64, height = 48\<rparr>)"
    by (simp add: scenario_world_def)
  have th: "thumbnail (300, 300) \<lparr>format = ''PNG'', mode = ''RGB'', width = 64, height = 48\<rparr> =
     Inr \<lparr>format = ''PNG'', mode = ''RGB'', width = 64, height = 48\<rparr>"
    by (simp add: thumbnail_fits)
  have "\<exists>w2. process_record scenario_env ''uploads'' ''thumbnails'' (S3Record ''icons/star.png'')
          scenario_world = (Inr (), w2)"
    by (intro exI, rule process_record_succeeds [OF _ src th save_jpeg_RGB])
       (simp_all add: scenario_env_def scenario_world_def)
  then obtain w2 where
    run: "lambda_handler scenario_env \<lparr>Records = [] @ [S3Record ''icons/star.png'']\<rparr> scenario_world =
           (Inr success_payload, w2)"
    by (auto simp: lambda_handler_configured [OF scenario_environ(1) scenario_environ(2)])
  have "\<exists>out. s3_objects w2 (''thumbnails'', ''resized/'' @ basename ''icons/star.png'') =
                  Some (ImageFile out) \<and>
                width out = 64 \<and> height out = 48"
    using small_picture_keeps_its_size
      [OF scenario_environ(1) scenario_environ(2) handler_nothing src _ _ _ _ run]
    by auto
  with run src show ?thesis
    by (simp add: scenario_environ handler_nothing)
qed

text \<open>
  C3. For any batch and any outcome, the keys under which the handler uploads are, in
  order, \<^verbatim>\<open>resized/\<close> followed by the basename of the key of each record that got as
  far as the upload: the first \<open>p\<close> records, and every record when the handler
  returns. The basename is what follows the last slash of the key, however many
  segments stand before it.
\<close>

theorem destination_key_is_resized_basename:
  assumes "lambda_handler e ev w = (res, w')"
  shows "(\<exists>p. p \<le> length (Records ev) \<and>
            put_object_keys (new_calls w w') =
              map (\<lambda>r. ''resized/'' @ basename (object_key r)) (take p (Records ev)) \<and>
            (\<forall>ok. res = Inr ok \<longrightarrow> p = length (Records ev))) \<and>
         (\<forall>dir name. CHR ''/'' \<notin> set name \<longrightarrow>
            basename (dir @ ''/'' @ name) = name \<and> basename name = name)"
proof
  from lambda_handler_cases [OF assms]
  show "\<exists>p. p \<le> length (Records ev) \<and>
            put_object_keys (new_calls w w') =
              map (\<lambda>r. ''resized/'' @ basename (object_key r)) (take p (Records ev)) \<and>
            (\<forall>ok. res = Inr ok \<longrightarrow> p = length (Records ev))"
  proof (elim disjE conjE exE)
    fix v assume "w' = w" "res = Inl (KeyError v)"
    then show ?thesis
      by (intro exI [of _ 0]) (simp add: new_calls_def)
  next
    fix sb db r
    assume run: "process_records e sb db (Records ev) w = (r, w')"
      and r: "(r = Inr ()) = (\<exists>ok. res = Inr ok)"
    from process_records_trace [OF run] obtain cs m p where
      c: "calls w' = calls w @ cs" and mp: "m \<le> p" "p \<le> length (Records ev)"
      and k: "put_object_keys cs = map (\<lambda>r. ''resized/'' @ basename (object_key r)) (take p (Records ev))"
      and ok: "r = Inr () \<longrightarrow> m = length (Records ev)"
      by blast
    from ok r mp have "\<forall>ok. res = Inr ok \<longrightarrow> p = length (Records ev)" by auto
    with mp k show ?thesis
      by (intro exI [of _ p]) (simp add: new_calls_append [OF c])
  qed
next
  show "\<forall>dir name. CHR ''/'' \<notin> set name \<longrightarrow>
          basename (dir @ ''/'' @ name) = name \<and> basename name = name"
  proof (intro allI impI conjI)
    fix dir name :: string
    assume n: "CHR ''/'' \<notin> set name"
    then have all: "\<forall>c \<in> set (rev name). c \<noteq> CHR ''/''" by auto
    have "takeWhile (\<lambda>c. c \<noteq> CHR ''/'') (rev name @ CHR ''/'' # rev dir) = rev name"
      using all by (simp add: takeWhile_tail)
    then show "basename (dir @ ''/'' @ name) = name"
      by (simp add: basename_def)
    have "takeWhile (\<lambda>c. c \<noteq> CHR ''/'') (rev name) = rev name"
      using all by (simp add: takeWhile_eq_all_conv)
    then show "basename name = name"
      by (simp only: basename_def rev_rev_ident)
  qed
qed

theorem destination_key_is_resized_basename_witness:
  "lambda_handler scenario_env
     \<lparr>Records = [S3Record ''photos/cat.png'', S3Record ''photos/cat.png'']\<rparr> scenario_world =
     (Inr success_payload, after_cat_cat) \<and>
   put_object_keys (new_calls scenario_world after_cat_cat) =
     [''resized/'' @ basename ''photos/cat.png'', ''resized/'' @ basename ''photos/cat.png''] \<and>
   CHR ''/'' \<notin> set ''cat.png'' \<and>
   basename (''photos'' @ ''/'' @ ''cat.png'') = ''cat.png''"
  using destination_key_is_resized_basename [OF handler_cat_cat] handler_cat_cat
  by (auto simp: new_calls_cat_cat)

text \<open>
  C4. Let the handler get through the records \<open>before\<close> and reach the state \<open>w1\<close>, and
  let the next record raise \<open>err\<close>, leaving the state \<open>w2\<close>. Then for any records
  \<open>after\<close> the whole batch raises \<open>err\<close> and leaves exactly \<open>w2\<close>: no request is sent
  and nothing is written for a later record. In \<open>w2\<close> the failed record has no
  metadata item. Its derived object is not removed: an upload that the store accepted
  is in the store of \<open>w2\<close>; when the failure came after the upload (the metadata
  write was sent), the store of \<open>w2\<close> is the store of \<open>w1\<close> with the uploaded
  object under the destination key; and when it came before, the store is unchanged.
\<close>

theorem failure_aborts_batch:
  assumes "environ e ''DEST_BUCKET'' = Some dest_bucket"
    and "lambda_handler e \<lparr>Records = before\<rparr> w = (Inr ok, w1)"
    and "lambda_handler e \<lparr>Records = [record]\<rparr> w1 = (Inl err, w2)"
  shows "lambda_handler e \<lparr>Records = before @ record # after\<rparr> w = (Inl err, w2) \<and>
         ddb_items w2 = ddb_items w1 \<and>
         (\<forall>buffer.
            PutObject dest_bucket (''resized/'' @ basename (object_key record)) buffer ''image/jpeg''
              \<in> set (new_calls w1 w2) \<and>
            faults e (Suc (length (calls w1))) = None \<longrightarrow>
            s3_objects w2 (dest_bucket, ''resized/'' @ basename (object_key record)) = Some buffer) \<and>
         ((\<exists>it. PutItem it \<in> set (new_calls w1 w2)) \<longrightarrow>
            (\<exists>buffer.
               PutObject dest_bucket (''resized/'' @ basename (object_key record)) buffer ''image/jpeg''
                 \<in> set (new_calls w1 w2) \<and>
               s3_objects w2 =
                 (s3_objects w1)((dest_bucket, ''resized/'' @ basename (object_key record)) \<mapsto> buffer))) \<and>
         ((\<nexists>it. PutItem it \<in> set (new_calls w1 w2)) \<longrightarrow> s3_objects w2 = s3_objects w1)"
proof -
  from lambda_handler_Inr [OF assms(2)] assms(1) obtain sb where
    cfg: "environ e ''SOURCE_BUCKET'' = Some sb" "environ e ''DEST_BUCKET'' = Some dest_bucket"
    and pre: "process_records e sb dest_bucket before w = (Inr (), w1)"
    by auto
  from assms(3) have one: "process_record e sb dest_bucket record w1 = (Inl err, w2)"
    by (simp add: lambda_handler_configured [OF cfg] split: prod.splits sum.splits)
  have all: "lambda_handler e \<lparr>Records = before @ record # after\<rparr> w = (Inl err, w2)"
    by (simp add: lambda_handler_configured [OF cfg] process_records_append pre one)
  have kept: "\<forall>buffer.
            PutObject dest_bucket (''resized/'' @ basename (object_key record)) buffer ''image/jpeg''
              \<in> set (new_calls w1 w2) \<and>
            faults e (Suc (length (calls w1))) = None \<longrightarrow>
            s3_objects w2 (dest_bucket, ''resized/'' @ basename (object_key record)) = Some buffer"
    using process_record_upload_kept [OF one] by blast
  from process_record_Inl [OF one] have
    "ddb_items w2 = ddb_items w1 \<and>
     ((\<exists>it. PutItem it \<in> set (new_calls w1 w2)) \<longrightarrow>
        (\<exists>buffer.
           PutObject dest_bucket (''resized/'' @ basename (object_key record)) buffer ''image/jpeg''
             \<in> set (new_calls w1 w2) \<and>
           s3_objects w2 =
             (s3_objects w1)((dest_bucket, ''resized/'' @ basename (object_key record)) \<mapsto> buffer))) \<and>
     ((\<nexists>it. PutItem it \<in> set (new_calls w1 w2)) \<longrightarrow> s3_objects w2 = s3_objects w1)"
    by (auto simp: new_calls_def)
  with all kept show ?thesis by simp
qed

theorem failure_aborts_batch_witness:
  "environ throttled_env ''DEST_BUCKET'' = Some ''thumbnails'' \<and>
   lambda_handler throttled_env \<lparr>Records = [S3Record ''photos/cat.png'']\<rparr> scenario_world =
     (Inr success_payload, after_cat) \<and>
   lambda_handler throttled_env \<lparr>Records = [S3Record ''pets/dog.jpg'']\<rparr> after_cat =
     (Inl (ClientError ''ProvisionedThroughputExceededException''), after_cat_dog_throttled) \<and>
   lambda_handler throttled_env
     \<lparr>Records = [S3Record ''photos/cat.png'', S3Record ''pets/dog.jpg'', S3Record ''photos/cat.png'']\<rparr>
     scenario_world =
     (Inl (ClientError ''ProvisionedThroughputExceededException''), after_cat_dog_throttled) \<and>
   ddb_items after_cat_dog_throttled = ddb_items after_cat \<and>
   PutObject ''thumbnails'' (''resized/'' @ basename ''pets/dog.jpg'') dog_thumbnail ''image/jpeg''
     \<in> set (new_calls after_cat after_cat_dog_throttled) \<and>
   faults throttled_env (Suc (length (calls after_cat))) = None \<and>
   s3_objects after_cat (''thumbnails'', ''resized/dog.jpg'') = None \<and>
   s3_objects after_cat_dog_throttled (''thumbnails'', ''resized/'' @ basename ''pets/dog.jpg'') =
     Some dog_thumbnail"
proof -
  have h1: "lambda_handler throttled_env \<lparr>Records = [S3Record ''photos/cat.png'']\<rparr> scenario_world =
     (Inr success_payload, after_cat)"
    by (simp add: lambda_handler_configured [OF scenario_environ(3) scenario_environ(4)]
        run_cat_throttled)
  have h2: "lambda_handler throttled_env \<lparr>Records = [S3Record ''pets/dog.jpg'']\<rparr> after_cat =
     (Inl (ClientError ''ProvisionedThroughputExceededException''), after_cat_dog_throttled)"
    by (simp add: lambda_handler_configured [OF scenario_environ(3) scenario_environ(4)]
        run_cat_dog_throttled)
  have sent: "PutObject ''thumbnails'' (''resized/'' @ basename ''pets/dog.jpg'') dog_thumbnail ''image/jpeg''
     \<in> set (new_calls after_cat after_cat_dog_throttled)"
    by (simp add: new_calls_def after_cat_dog_throttled_def basename_dog)
  have accepted: "faults throttled_env (Suc (length (calls after_cat))) = None"
    by (simp add: throttled_env_def after_cat_def)
  have before: "s3_objects after_cat (''thumbnails'', ''resized/dog.jpg'') = None"
    by (simp add: after_cat_def scenario_world_def)
  note run = failure_aborts_batch [OF scenario_environ(4) h1 h2, of "[S3Record ''photos/cat.png'']"]
  have kept: "s3_objects after_cat_dog_throttled (''thumbnails'', ''resized/'' @ basename ''pets/dog.jpg'') =
     Some dog_thumbnail"
    using run [THEN conjunct2, THEN conjunct2, THEN conjunct1] sent accepted by simp
  show ?thesis
    using run [THEN conjunct1] run [THEN conjunct2, THEN conjunct1] h1 h2 sent accepted before kept
    by (simp add: scenario_environ)
qed

text \<open>
  C5. When the loop gets through every record of the batch without an exception, the
  handler returns the payload with status code 200 and the fixed body, whatever the
  records are and however many.
\<close>

theorem lambda_handler_returns_fixed_payload:
  assumes "environ e ''SOURCE_BUCKET'' = Some source_bucket"
    and "environ e ''DEST_BUCKET'' = Some dest_bucket"
    and "process_records e source_bucket dest_bucket (Records ev) w = (Inr u, w')"
  shows "lambda_handler e ev w =
           (Inr \<lparr>statusCode = 200, body = ''Image resized and metadata stored successfully.''\<rparr>, w')"
  using assms by (simp add: lambda_handler_def success_payload_def)

theorem lambda_handler_returns_fixed_payload_witness:
  "environ scenario_env ''SOURCE_BUCKET'' = Some ''uploads'' \<and>
   environ scenario_env ''DEST_BUCKET'' = Some ''thumbnails'' \<and>
   process_records scenario_env ''uploads'' ''thumbnails''
     (Records \<lparr>Records = [S3Record ''photos/cat.png'', S3Record ''photos/cat.png'']\<rparr>)
     scenario_world = (Inr (), after_cat_cat) \<and>
   lambda_handler scenario_env
     \<lparr>Records = [S3Record ''photos/cat.png'', S3Record ''photos/cat.png'']\<rparr> scenario_world =
     (Inr \<lparr>statusCode = 200, body = ''Image resized and metadata stored successfully.''\<rparr>,
      after_cat_cat)"
proof -
  have run: "process_records scenario_env ''uploads'' ''thumbnails''
     (Records \<lparr>Records = [S3Record ''photos/cat.png'', S3Record ''photos/cat.png'']\<rparr>)
     scenario_world = (Inr (), after_cat_cat)"
    by (simp del: process_records.simps add: run_cat_then_cat)
  show ?thesis
    using lambda_handler_returns_fixed_payload [OF scenario_environ(1) scenario_environ(2) run] run
    by (simp del: process_records.simps add: scenario_environ)
qed

text \<open>
  C6. When the handler returns, the metadata writes it has requested are one per
  record, in order, and the item of record \<open>i\<close> has exactly the six attributes
  \<^verbatim>\<open>image_id\<close> (the identifier drawn for the record), \<^verbatim>\<open>original_key\<close>,
  \<^verbatim>\<open>resized_key\<close>, \<^verbatim>\<open>upload_time\<close> (the clock reading taken for the record),
  \<^verbatim>\<open>source_bucket\<close> and \<^verbatim>\<open>dest_bucket\<close>. The handler only puts items: every
  item of the table under another identifier is left as it was, and when the identifiers
  drawn differ from each other every item written is in the table at the end.
\<close>

theorem one_metadata_item_per_record:
  assumes "environ e ''SOURCE_BUCKET'' = Some source_bucket"
    and "environ e ''DEST_BUCKET'' = Some dest_bucket"
    and "lambda_handler e ev w = (Inr ok, w')"
  shows "put_items (new_calls w w') =
           map (\<lambda>i. [(''image_id'', uuid_source e (uuid_count w + i)),
                     (''original_key'', object_key (Records ev ! i)),
                     (''resized_key'', ''resized/'' @ basename (object_key (Records ev ! i))),
                     (''upload_time'', isoformat (clock e (clock_reads w + i))),
                     (''source_bucket'', source_bucket),
                     (''dest_bucket'', dest_bucket)])
               [0..<length (Records ev)] \<and>
         (\<forall>k. k \<notin> uuid_source e ` {uuid_count w ..< uuid_count w + length (Records ev)} \<longrightarrow>
              ddb_items w' k = ddb_items w k) \<and>
         (inj_on (uuid_source e) {uuid_count w ..< uuid_count w + length (Records ev)} \<longrightarrow>
            set (put_items (new_calls w w')) \<subseteq> ran (ddb_items w'))"
proof -
  from lambda_handler_Inr [OF assms(3)] assms(1,2) have
    run: "process_records e source_bucket dest_bucket (Records ev) w = (Inr (), w')"
    by auto
  from process_records_trace [OF run] obtain cs where
    c: "calls w' = calls w @ cs"
    and i: "put_items cs = expected_items e source_bucket dest_bucket (uuid_count w) (clock_reads w) (Records ev)"
    and u: "uuid_count w' = uuid_count w + length (Records ev)"
    by auto
  have new: "put_items (new_calls w w') =
      expected_items e source_bucket dest_bucket (uuid_count w) (clock_reads w) (Records ev)"
    by (simp add: new_calls_append [OF c] i)
  from process_records_table [OF run] have
    same: "\<forall>k. k \<notin> uuid_source e ` {uuid_count w ..< uuid_count w + length (Records ev)} \<longrightarrow>
              ddb_items w' k = ddb_items w k"
    by (simp add: u)
  from process_records_items_stored [OF run] have
    "inj_on (uuid_source e) {uuid_count w ..< uuid_count w + length (Records ev)} \<longrightarrow>
            set (put_items (new_calls w w')) \<subseteq> ran (ddb_items w')"
    by (simp add: new)
  with same new show ?thesis
    by (simp add: expected_items_map)
qed

theorem one_metadata_item_per_record_witness:
  "environ scenario_env ''SOURCE_BUCKET'' = Some ''uploads'' \<and>
   environ scenario_env ''DEST_BUCKET'' = Some ''thumbnails'' \<and>
   lambda_handler scenario_env
     \<lparr>Records = [S3Record ''photos/cat.png'', S3Record ''photos/cat.png'']\<rparr> scenario_world =
     (Inr success_payload, after_cat_cat) \<and>
   put_items (new_calls scenario_world after_cat_cat) =
     [[(''image_id'', ''u''), (''original_key'', ''photos/cat.png''),
       (''resized_key'', ''resized/cat.png''), (''upload_time'', ''2024-05-17T09:30:00.250000''),
       (''source_bucket'', ''uploads''), (''dest_bucket'', ''thumbnails'')],
      [(''image_id'', ''uu''), (''original_key'', ''photos/cat.png''),
       (''resized_key'', ''resized/cat.png''), (''upload_time'', ''2024-05-17T09:30:01.250000''),
       (''source_bucket'', ''uploads''), (''dest_bucket'', ''thumbnails'')]] \<and>
   ''v'' \<notin> uuid_source scenario_env ` {uuid_count scenario_world ..< uuid_count scenario_world + 2} \<and>
   ddb_items after_cat_cat ''v'' = ddb_items scenario_world ''v'' \<and>
   inj_on (uuid_source scenario_env) {uuid_count scenario_world ..< uuid_count scenario_world + 2} \<and>
   set (put_items (new_calls scenario_world after_cat_cat)) \<subseteq> ran (ddb_items after_cat_cat)"
proof -
  have fresh: "''v'' \<notin> uuid_source scenario_env ` {uuid_count scenario_world ..< uuid_count scenario_world + 2}"
    by (auto simp: scenario_env_def)
  have inj: "inj_on (uuid_source scenario_env) {uuid_count scenario_world ..< uuid_count scenario_world + 2}"
    by (rule inj_on_subset [OF scenario_uuid_inj]) simp
  note run = one_metadata_item_per_record [OF scenario_environ(1) scenario_environ(2) handler_cat_cat]
  have same: "ddb_items after_cat_cat ''v'' = ddb_items scenario_world ''v''"
    using run [THEN conjunct2, THEN conjunct1] fresh by simp
  have stored: "set (put_items (new_calls scenario_world after_cat_cat)) \<subseteq> ran (ddb_items after_cat_cat)"
    using run [THEN conjunct2, THEN conjunct2] inj by simp
  show ?thesis
    using same stored fresh inj
    by (simp add: scenario_environ handler_cat_cat new_calls_cat_cat)
qed




text \<open>
  C8. Let the readings that \<^verbatim>\<open>datetime.utcnow()\<close> takes for the records of the batch
  be valid dates and times. When the handler returns, the \<open>upload_time\<close> of the item
  written for record \<open>i\<close> is \<^verbatim>\<open>isoformat\<close> of the reading of the UTC clock taken
  while that record was processed, and read back it gives that reading, to the
  microsecond. Each value is a valid representation in the ISO 8601 format
  \<^verbatim>\<open>YYYY-MM-DDThh:mm:ss[.ffffff]\<close>; it has no zone designator, so that it is a time
  in UTC by the clock it was read from and not by what it says. In the order of the
  records the values never decrease exactly when none of these readings is earlier than
  the reading before it.
\<close>

theorem upload_time_is_isoformat_of_utcnow:
  assumes "lambda_handler e ev w = (Inr ok, w')"
    and "\<forall>i < length (Records ev). valid_datetime (clock e (clock_reads w + i))"
  shows "upload_times (new_calls w w') =
           map (\<lambda>i. isoformat (clock e (clock_reads w + i))) [0..<length (Records ev)] \<and>
         map parse_datetime (upload_times (new_calls w w')) =
           map (\<lambda>i. clock e (clock_reads w + i)) [0..<length (Records ev)] \<and>
         list_all iso8601_datetime (upload_times (new_calls w w')) \<and>
         list_all (\<lambda>s. zone_designator s = []) (upload_times (new_calls w w')) \<and>
         (sorted (upload_times (new_calls w w')) \<longleftrightarrow>
            (\<forall>i. Suc i < length (Records ev) \<longrightarrow>
               datetime_le (clock e (clock_reads w + i)) (clock e (clock_reads w + Suc i))))"
proof -
  from lambda_handler_Inr [OF assms(1)] obtain sb db where
    run: "process_records e sb db (Records ev) w = (Inr (), w')"
    by auto
  from process_records_trace [OF run] obtain cs where
    c: "calls w' = calls w @ cs"
    and i: "put_items cs = expected_items e sb db (uuid_count w) (clock_reads w) (Records ev)"
    by auto
  have times: "upload_times (new_calls w w') =
           map (\<lambda>i. isoformat (clock e (clock_reads w + i))) [0..<length (Records ev)]"
    by (simp add: upload_times_def new_calls_append [OF c] i expected_items_upload_times)
  have rd: "map parse_datetime (upload_times (new_calls w w')) =
           map (\<lambda>i. clock e (clock_reads w + i)) [0..<length (Records ev)]"
    unfolding times using assms(2) by (simp add: parse_isoformat)
  have valid: "list_all iso8601_datetime (upload_times (new_calls w w'))"
    unfolding times using assms(2) by (simp add: list_all_iff iso8601_isoformat)
  have zone: "list_all (\<lambda>s. zone_designator s = []) (upload_times (new_calls w w'))"
    unfolding times using assms(2) by (simp add: list_all_iff zone_designator_isoformat)
  have order: "sorted (upload_times (new_calls w w')) \<longleftrightarrow>
            (\<forall>i. Suc i < length (Records ev) \<longrightarrow>
               datetime_le (clock e (clock_reads w + i)) (clock e (clock_reads w + Suc i)))"
    unfolding times by (rule sorted_isoformat [OF assms(2)])
  from times rd valid zone order show ?thesis by blast
qed

theorem upload_time_is_isoformat_of_utcnow_witness:
  "lambda_handler scenario_env
     \<lparr>Records = [S3Record ''photos/cat.png'', S3Record ''photos/cat.png'']\<rparr> scenario_world =
     (Inr success_payload, after_cat_cat) \<and>
   valid_datetime (clock scenario_env (clock_reads scenario_world + 0)) \<and>
   valid_datetime (clock scenario_env (clock_reads scenario_world + 1)) \<and>
   datetime_le (clock scenario_env (clock_reads scenario_world + 0))
     (clock scenario_env (clock_reads scenario_world + Suc 0)) \<and>
   upload_times (new_calls scenario_world after_cat_cat) =
     [''2024-05-17T09:30:00.250000'', ''2024-05-17T09:30:01.250000''] \<and>
   map parse_datetime (upload_times (new_calls scenario_world after_cat_cat)) =
     [scenario_clock 0, scenario_clock 1] \<and>
   list_all iso8601_datetime (upload_times (new_calls scenario_world after_cat_cat)) \<and>
   list_all (\<lambda>s. zone_designator s = []) (upload_times (new_calls scenario_world after_cat_cat)) \<and>
   sorted (upload_times (new_calls scenario_world after_cat_cat))"
proof -
  have v: "\<forall>i < length (Records \<lparr>Records = [S3Record ''photos/cat.png'', S3Record ''photos/cat.png'']\<rparr>).
      valid_datetime (clock scenario_env (clock_reads scenario_world + i))"
    by (simp add: scenario_env_def scenario_clock_valid)
  have s: "datetime_le (clock scenario_env (clock_reads scenario_world + i))
      (clock scenario_env (clock_reads scenario_world + Suc i))" for i
    by (simp add: scenario_env_def scenario_clock_steps)
  have t: "upload_times (new_calls scenario_world after_cat_cat) =
     [''2024-05-17T09:30:00.250000'', ''2024-05-17T09:30:01.250000'']"
    by (simp add: upload_times_def new_calls_cat_cat List.map_filter_simps)
  note run = upload_time_is_isoformat_of_utcnow [OF handler_cat_cat v]
  have rd: "map parse_datetime (upload_times (new_calls scenario_world after_cat_cat)) =
     [scenario_clock 0, scenario_clock 1]"
    using run [THEN conjunct2, THEN conjunct1]
    by (simp add: scenario_env_def scenario_world_def upt_conv_Cons)
  have sorted: "sorted (upload_times (new_calls scenario_world after_cat_cat))"
    using run [THEN conjunct2, THEN conjunct2, THEN conjunct2, THEN conjunct2] s by blast
  have vs: "valid_datetime (clock scenario_env (clock_reads scenario_world + 0))"
    "valid_datetime (clock scenario_env (clock_reads scenario_world + 1))"
    by (simp_all add: scenario_env_def scenario_clock_valid)
  show ?thesis
    using run [THEN conjunct2, THEN conjunct2, THEN conjunct1]
      run [THEN conjunct2, THEN conjunct2, THEN conjunct2, THEN conjunct1]
      vs s [of 0] t rd sorted
    by (simp only: handler_cat_cat simp_thms)
qed

text \<open>
  Counterexample to C8 as the specification words it. The clock of line 39 is the wall
  clock of the machine, which can be set back: with a second reading one second before
  the first, the handler returns and the \<open>upload_time\<close> of the second record is
  smaller than that of the first. And \<^verbatim>\<open>isoformat\<close> of the value of \<^verbatim>\<open>utcnow()\<close> carries no
  zone designator, so that the value is a valid ISO 8601 representation but not one
  that designates UTC.
\<close>

theorem clock_set_back_disorders_upload_times:
  "lambda_handler backward_env
     \<lparr>Records = [S3Record ''photos/cat.png'', S3Record ''photos/cat.png'']\<rparr> scenario_world =
     (Inr success_payload, after_cat_cat_backward) \<and>
   valid_datetime (clock backward_env 0) \<and> valid_datetime (clock backward_env 1) \<and>
   upload_times (new_calls scenario_world after_cat_cat_backward) =
     [''2024-05-17T09:30:01.250000'', ''2024-05-17T09:30:00.250000''] \<and>
   \<not> sorted (upload_times (new_calls scenario_world after_cat_cat_backward)) \<and>
   iso8601_datetime ''2024-05-17T09:30:01.250000'' \<and>
   zone_designator ''2024-05-17T09:30:01.250000'' = [] \<and>
   \<not> iso8601_utc_datetime ''2024-05-17T09:30:01.250000''"
proof -
  have t: "upload_times (new_calls scenario_world after_cat_cat_backward) =
     [''2024-05-17T09:30:01.250000'', ''2024-05-17T09:30:00.250000'']"
    by (simp add: upload_times_def new_calls_cat_cat_backward List.map_filter_simps)
  have n: "\<not> sorted (upload_times (new_calls scenario_world after_cat_cat_backward))"
    unfolding t by (simp add: less_eq_char_def)
  have v: "valid_datetime (clock backward_env 0)" "valid_datetime (clock backward_env 1)"
    by (simp_all add: backward_env_def scenario_env_def scenario_clock_valid)
  have z: "zone_designator ''2024-05-17T09:30:01.250000'' = []"
    by (simp add: zone_designator_def time_fraction_def is_digit_def)
  have i: "iso8601_datetime ''2024-05-17T09:30:01.250000''"
    using iso8601_isoformat [OF scenario_clock_valid, of "Suc 0"]
    by (simp only: isoformat_scenario_clock_1)
  have u: "\<not> iso8601_utc_datetime ''2024-05-17T09:30:01.250000''"
    by (simp add: iso8601_utc_datetime_def z utc_designator_def)
  show ?thesis
    using t n v z i u by (simp only: handler_cat_cat_backward simp_thms)
qed

text \<open>
  C9. The object \<^verbatim>\<open>icons/logo.png\<close> of the scenario exists, decodes (a 64 by 64 PNG
  of mode RGBA) and fits the box, but the JPEG writer raises for its mode. The handler
  raises that error after the download; the store and the table are unchanged, so no
  derived object and no metadata item exist for the record.
\<close>

theorem alpha_channel_picture_fails_to_encode:
  "s3_objects scenario_world (''uploads'', ''icons/logo.png'') =
     Some (ImageFile \<lparr>format = ''PNG'', mode = ''RGBA'', width = 64, height = 64\<rparr>) \<and>
   Image_open (ImageFile \<lparr>format = ''PNG'', mode = ''RGBA'', width = 64, height = 64\<rparr>) =
     Inr \<lparr>format = ''PNG'', mode = ''RGBA'', width = 64, height = 64\<rparr> \<and>
   thumbnail (300, 300) \<lparr>format = ''PNG'', mode = ''RGBA'', width = 64, height = 64\<rparr> =
     Inr \<lparr>format = ''PNG'', mode = ''RGBA'', width = 64, height = 64\<rparr> \<and>
   save_jpeg \<lparr>format = ''PNG'', mode = ''RGBA'', width = 64, height = 64\<rparr> =
     Inl (OSError ''cannot write mode RGBA as JPEG'') \<and>
   lambda_handler scenario_env \<lparr>Records = [S3Record ''icons/logo.png'']\<rparr> scenario_world =
     (Inl (OSError ''cannot write mode RGBA as JPEG''),
      scenario_world\<lparr>uuid_count := 1, calls := [GetObject ''uploads'' ''icons/logo.png'']\<rparr>)"
  by (simp add: lambda_handler_configured [OF scenario_environ(1) scenario_environ(2)] run_logo)
     (simp add: scenario_world_def Image_open_def thumbnail_def preserve_aspect_ratio_def
        save_jpeg_def RAWMODE_def)

text \<open>
  C10. For a batch with no record the handler sends no request and changes nothing: the
  state it returns is the state it was given, with its log of requests, its objects and
  its items. With the two environment variables set it returns the fixed payload.
\<close>

theorem empty_batch_touches_nothing:
  "snd (lambda_handler e \<lparr>Records = []\<rparr> w) = w \<and>
   (environ e ''SOURCE_BUCKET'' \<noteq> None \<and> environ e ''DEST_BUCKET'' \<noteq> None \<longrightarrow>
      fst (lambda_handler e \<lparr>Records = []\<rparr> w) =
        Inr \<lparr>statusCode = 200, body = ''Image resized and metadata stored successfully.''\<rparr>)"
  unfolding lambda_handler_def success_payload_def
  by (auto split: option.splits)

theorem empty_batch_touches_nothing_witness:
  "snd (lambda_handler scenario_env \<lparr>Records = []\<rparr> scenario_world) = scenario_world \<and>
   environ scenario_env ''SOURCE_BUCKET'' \<noteq> None \<and>
   environ scenario_env ''DEST_BUCKET'' \<noteq> None \<and>
   fst (lambda_handler scenario_env \<lparr>Records = []\<rparr> scenario_world) =
     Inr \<lparr>statusCode = 200, body = ''Image resized and metadata stored successfully.''\<rparr>"
  using empty_batch_touches_nothing [of scenario_env scenario_world]
  by (simp add: scenario_environ)

end
